theory Spec2Isabelle
  imports Complex_Main "HOL-Library.Sublist"
begin

section \<open>Data model (internal/models/task.go)\<close>

text \<open>
  \<open>TaskStatus\<close> is a Go string type with four named constants. A \<open>time.Time\<close> is
  modelled as an integer instant. Go's \<open>int\<close> is taken to be 64 bits wide; values of
  that type are HOL integers and the wrap-around is written out where the code computes
  with them (\<open>int64\<close> below).
\<close>

type_synonym TaskStatus = string

definition TaskStatusPending :: TaskStatus where
  "TaskStatusPending = ''pending''"

definition TaskStatusInProgress :: TaskStatus where
  "TaskStatusInProgress = ''in_progress''"

definition TaskStatusCompleted :: TaskStatus where
  "TaskStatusCompleted = ''completed''"

definition TaskStatusCancelled :: TaskStatus where
  "TaskStatusCancelled = ''cancelled''"

record Task =
  ID :: string
  Title :: string
  Description :: string
  Status :: TaskStatus
  Assignee :: string
  CreatedAt :: int
  UpdatedAt :: int

record CreateTaskRequest =
  Req_Title :: string
  Req_Description :: string
  Req_Status :: TaskStatus
  Req_Assignee :: string

text \<open>The fields of an update request are pointers: \<open>None\<close> is the nil pointer.\<close>

record UpdateTaskRequest =
  Upd_Title :: "string option"
  Upd_Description :: "string option"
  Upd_Status :: "TaskStatus option"
  Upd_Assignee :: "string option"

record TaskFilter =
  F_Status :: "TaskStatus option"
  F_Assignee :: "string option"
  F_Page :: int
  F_PageSize :: int

text \<open>
  A Go slice \<open>[]Task\<close> is \<open>None\<close> when it is nil and \<open>Some xs\<close> otherwise: the
  service tells a nil slice from an empty one.
\<close>

type_synonym TaskSlice = "Task list option"

definition len :: "TaskSlice \<Rightarrow> int" where
  "len ts = (case ts of None \<Rightarrow> 0 | Some xs \<Rightarrow> int (length xs))"

record TaskListResponse =
  Tasks :: TaskSlice
  Total :: int
  Page :: int
  PageSize :: int
  TotalPages :: int

definition IsValidStatus :: "TaskStatus \<Rightarrow> bool" where
  "IsValidStatus status =
     (status = TaskStatusPending \<or> status = TaskStatusInProgress
      \<or> status = TaskStatusCompleted \<or> status = TaskStatusCancelled)"

text \<open>
  \<open>NewTask\<close> reads the clock and draws a fresh UUID; both come from the environment and
  are passed in here.
\<close>

definition NewTask :: "int \<Rightarrow> string \<Rightarrow> string \<Rightarrow> string \<Rightarrow> string \<Rightarrow> TaskStatus \<Rightarrow> Task" where
  "NewTask now uuid title description assignee status =
     (let status = (if status = '''' then TaskStatusPending else status)
      in \<lparr>ID = uuid, Title = title, Description = description, Status = status,
          Assignee = assignee, CreatedAt = now, UpdatedAt = now\<rparr>)"

section \<open>Go values: errors and machine integers\<close>

text \<open>
  Sentinel errors are constructors of their own, since Go compares them by identity.
  \<open>errors_New\<close> is an error made on the spot with a message, \<open>fmt_Errorf\<close> wraps a
  cause with the verb \<open>%w\<close>, and \<open>driver_error\<close> is a failure reported by the SQL
  driver or the Redis client.
\<close>

datatype error =
    ErrTaskNotFound
  | ErrInvalidInput
  | sql_ErrNoRows
  | redis_Nil
  | errors_New string
  | fmt_Errorf string error
  | driver_error string


definition int64 :: "int \<Rightarrow> int" where
  "int64 x = (x + 2 ^ 63) mod 2 ^ 64 - 2 ^ 63"

text \<open>
  The operator \<open>/\<close> on integers rounds the quotient towards zero. The service divides
  by a page size that it has made positive before.
\<close>

definition go_quo :: "int \<Rightarrow> int \<Rightarrow> int" where
  "go_quo a b =
     (if (a < 0) = (b < 0) then \<bar>a\<bar> div \<bar>b\<bar> else - (\<bar>a\<bar> div \<bar>b\<bar>))"

text \<open>The verb \<open>%d\<close>: the decimal numeral of an integer, with a minus sign if negative.\<close>

fun digits :: "nat \<Rightarrow> string" where
  "digits n =
     (if n < 10 then [char_of (48 + n)]
      else digits (n div 10) @ [char_of (48 + n mod 10)])"

declare digits.simps [simp del]

definition fmt_d :: "int \<Rightarrow> string" where
  "fmt_d i = (if i < 0 then CHR ''-'' # digits (nat (- i)) else digits (nat i))"

section \<open>Cache keys (internal/cache/redis.go)\<close>

definition taskCachePrefix :: string where
  "taskCachePrefix = ''task:''"

definition taskListKey :: string where
  "taskListKey = ''tasks:list''"

definition GenerateCacheKey :: "TaskFilter option \<Rightarrow> string" where
  "GenerateCacheKey flt =
     (let key = taskListKey in
      case flt of
        None \<Rightarrow> key @ '':all''
      | Some f \<Rightarrow>
          (let key = (case F_Status f of None \<Rightarrow> key | Some s \<Rightarrow> key @ '':status:'' @ s);
               key = (case F_Assignee f of None \<Rightarrow> key | Some a \<Rightarrow> key @ '':assignee:'' @ a);
               key = key @ '':page:'' @ fmt_d (F_Page f) @ '':size:'' @ fmt_d (F_PageSize f)
           in key))"

section \<open>The Redis client\<close>

text \<open>
  The Redis server is the state behind \<open>redis.Client\<close>: the keys it holds, and a
  script saying which of the coming commands fail (\<open>Some msg\<close>) and which are answered
  (\<open>None\<close>; an exhausted script answers every command). Expiry after \<open>cacheTTL\<close> is
  not modelled: no time passes inside one service call. A stored value is the document
  that \<open>json.Marshal\<close> wrote: an object for a task, an array for a non-nil slice,
  \<open>null\<close> for a nil slice or pointer; \<open>OtherBytes\<close> is anything else.
\<close>

datatype redis_value =
    JsonTask Task
  | JsonTasks "Task list"
  | JsonNull
  | OtherBytes string

record redis_Client =
  kv :: "(string \<times> redis_value) list"
  redis_faults :: "string option list"

definition next_fault :: "string option list \<Rightarrow> string option \<times> string option list" where
  "next_fault fs = (case fs of [] \<Rightarrow> (None, []) | f # fs' \<Rightarrow> (f, fs'))"

definition client_Get :: "string \<Rightarrow> redis_Client \<Rightarrow> (error + redis_value) \<times> redis_Client" where
  "client_Get key c =
     (let (fault, fs) = next_fault (redis_faults c); c' = c\<lparr>redis_faults := fs\<rparr> in
      case fault of
        Some msg \<Rightarrow> (Inl (driver_error msg), c')
      | None \<Rightarrow>
          (case map_of (kv c) key of
             None \<Rightarrow> (Inl redis_Nil, c')
           | Some v \<Rightarrow> (Inr v, c')))"

definition client_Set :: "string \<Rightarrow> redis_value \<Rightarrow> redis_Client \<Rightarrow> error option \<times> redis_Client" where
  "client_Set key v c =
     (let (fault, fs) = next_fault (redis_faults c); c' = c\<lparr>redis_faults := fs\<rparr> in
      case fault of
        Some msg \<Rightarrow> (Some (driver_error msg), c')
      | None \<Rightarrow> (None, c'\<lparr>kv := (key, v) # filter (\<lambda>e. fst e \<noteq> key) (kv c)\<rparr>))"

definition client_Del :: "string \<Rightarrow> redis_Client \<Rightarrow> error option \<times> redis_Client" where
  "client_Del key c =
     (let (fault, fs) = next_fault (redis_faults c); c' = c\<lparr>redis_faults := fs\<rparr> in
      case fault of
        Some msg \<Rightarrow> (Some (driver_error msg), c')
      | None \<Rightarrow> (None, c'\<lparr>kv := filter (\<lambda>e. fst e \<noteq> key) (kv c)\<rparr>))"

text \<open>
  \<open>client_Scan p\<close> is the command \<open>SCAN 0 MATCH p*\<close> run to the end of its cursor:
  the keys that begin with \<open>p\<close>.
\<close>

definition client_Scan :: "string \<Rightarrow> redis_Client \<Rightarrow> (error + string list) \<times> redis_Client" where
  "client_Scan p c =
     (let (fault, fs) = next_fault (redis_faults c); c' = c\<lparr>redis_faults := fs\<rparr> in
      case fault of
        Some msg \<Rightarrow> (Inl (driver_error msg), c')
      | None \<Rightarrow> (Inr (filter (prefix p) (map fst (kv c))), c'))"

subsection \<open>encoding/json on the documents this program writes\<close>

definition zero_Task :: Task where
  "zero_Task = \<lparr>ID = [], Title = [], Description = [], Status = [],
                Assignee = [], CreatedAt = 0, UpdatedAt = 0\<rparr>"

definition json_Marshal_Task :: "Task \<Rightarrow> redis_value" where
  "json_Marshal_Task t = JsonTask t"

definition json_Marshal_Tasks :: "TaskSlice \<Rightarrow> redis_value" where
  "json_Marshal_Tasks ts = (case ts of None \<Rightarrow> JsonNull | Some xs \<Rightarrow> JsonTasks xs)"

text \<open>
  Encoding a task or a slice of tasks cannot fail, so the branch of \<open>SetTask\<close> and
  \<open>SetTaskList\<close> for an error of \<open>json.Marshal\<close> is never taken and is left out.
  Decoding \<open>null\<close> into a struct leaves it at its zero value and into a slice leaves it
  nil, both without an error; an empty array decodes to an empty slice that is not nil.
\<close>

definition json_Unmarshal_Task :: "redis_value \<Rightarrow> error + Task" where
  "json_Unmarshal_Task v =
     (case v of
        JsonTask t \<Rightarrow> Inr t
      | JsonNull \<Rightarrow> Inr zero_Task
      | JsonTasks xs \<Rightarrow> Inl (driver_error ''json: cannot unmarshal array into Go value of type models.Task'')
      | OtherBytes b \<Rightarrow> Inl (driver_error ''json: invalid document''))"

definition json_Unmarshal_Tasks :: "redis_value \<Rightarrow> error + TaskSlice" where
  "json_Unmarshal_Tasks v =
     (case v of
        JsonTasks xs \<Rightarrow> Inr (Some xs)
      | JsonNull \<Rightarrow> Inr None
      | JsonTask t \<Rightarrow> Inl (driver_error ''json: cannot unmarshal object into Go value of type []models.Task'')
      | OtherBytes b \<Rightarrow> Inl (driver_error ''json: invalid document''))"

section \<open>RedisCache (internal/cache/redis.go)\<close>

text \<open>
  A method returning \<open>(*Task, error)\<close> or \<open>([]Task, error)\<close> returns the pair as it
  is: \<open>(None, None)\<close> is the cache miss \<open>nil, nil\<close>.
\<close>

definition RedisCache_GetTask :: "string \<Rightarrow> redis_Client \<Rightarrow> (Task option \<times> error option) \<times> redis_Client" where
  "RedisCache_GetTask tid c =
     (let key = taskCachePrefix @ tid in
      case client_Get key c of
        (Inl err, c') \<Rightarrow>
          (if err = redis_Nil then ((None, None), c')
           else ((None, Some (fmt_Errorf ''failed to get from cache'' err)), c'))
      | (Inr data, c') \<Rightarrow>
          (case json_Unmarshal_Task data of
             Inl err \<Rightarrow> ((None, Some (fmt_Errorf ''failed to unmarshal task'' err)), c')
           | Inr task \<Rightarrow> ((Some task, None), c')))"

definition RedisCache_SetTask :: "Task \<Rightarrow> redis_Client \<Rightarrow> error option \<times> redis_Client" where
  "RedisCache_SetTask task c =
     (let key = taskCachePrefix @ ID task; data = json_Marshal_Task task in
      case client_Set key data c of
        (Some err, c') \<Rightarrow> (Some (fmt_Errorf ''failed to set cache'' err), c')
      | (None, c') \<Rightarrow> (None, c'))"

definition RedisCache_DeleteTask :: "string \<Rightarrow> redis_Client \<Rightarrow> error option \<times> redis_Client" where
  "RedisCache_DeleteTask tid c =
     (let key = taskCachePrefix @ tid in
      case client_Del key c of
        (Some err, c') \<Rightarrow> (Some (fmt_Errorf ''failed to delete from cache'' err), c')
      | (None, c') \<Rightarrow> (None, c'))"

definition RedisCache_GetTaskList :: "string \<Rightarrow> redis_Client \<Rightarrow> (TaskSlice \<times> error option) \<times> redis_Client" where
  "RedisCache_GetTaskList cacheKey c =
     (case client_Get cacheKey c of
        (Inl err, c') \<Rightarrow>
          (if err = redis_Nil then ((None, None), c')
           else ((None, Some (fmt_Errorf ''failed to get list from cache'' err)), c'))
      | (Inr data, c') \<Rightarrow>
          (case json_Unmarshal_Tasks data of
             Inl err \<Rightarrow> ((None, Some (fmt_Errorf ''failed to unmarshal tasks'' err)), c')
           | Inr tasks \<Rightarrow> ((tasks, None), c')))"

definition RedisCache_SetTaskList :: "string \<Rightarrow> TaskSlice \<Rightarrow> redis_Client \<Rightarrow> error option \<times> redis_Client" where
  "RedisCache_SetTaskList cacheKey tasks c =
     (let data = json_Marshal_Tasks tasks in
      case client_Set cacheKey data c of
        (Some err, c') \<Rightarrow> (Some (fmt_Errorf ''failed to set list cache'' err), c')
      | (None, c') \<Rightarrow> (None, c'))"

text \<open>The loop over the scan iterator: it returns at the first deletion that fails.\<close>

fun InvalidateTaskList_loop :: "string list \<Rightarrow> redis_Client \<Rightarrow> error option \<times> redis_Client" where
  "InvalidateTaskList_loop [] c = (None, c)"
| "InvalidateTaskList_loop (k # ks) c =
     (case client_Del k c of
        (Some err, c') \<Rightarrow> (Some (fmt_Errorf (''failed to delete key '' @ k) err), c')
      | (None, c') \<Rightarrow> InvalidateTaskList_loop ks c')"

definition RedisCache_InvalidateTaskList :: "redis_Client \<Rightarrow> error option \<times> redis_Client" where
  "RedisCache_InvalidateTaskList c =
     (case client_Scan ''tasks:list'' c of
        (Inl err, c') \<Rightarrow> (Some (fmt_Errorf ''failed to iterate keys'' err), c')
      | (Inr keys, c') \<Rightarrow> InvalidateTaskList_loop keys c')"

section \<open>The SQL database\<close>

text \<open>
  The database behind \<open>sql.DB\<close> is the \<open>tasks\<close> table, in insertion order, and a
  fault script like that of the Redis client. The statements are the ones the
  repository sends. \<open>id\<close> is the primary key, so an insert of a present identifier is
  refused. The column length limits of the schema and NULL columns are not modelled: a
  row is a \<open>Task\<close>, and scanning such a row into a \<open>Task\<close> cannot fail.
\<close>

record sql_DB =
  rows :: "Task list"
  sql_faults :: "string option list"

record sql_Result =
  RowsAffected :: "error + int"

text \<open>\<open>INSERT INTO tasks (...) VALUES (...)\<close>\<close>

definition db_Exec_insert :: "Task \<Rightarrow> sql_DB \<Rightarrow> error option \<times> sql_DB" where
  "db_Exec_insert task db =
     (let (fault, fs) = next_fault (sql_faults db); db' = db\<lparr>sql_faults := fs\<rparr> in
      case fault of
        Some msg \<Rightarrow> (Some (driver_error msg), db')
      | None \<Rightarrow>
          (if ID task \<in> set (map ID (rows db))
           then (Some (driver_error ''pq: duplicate key value violates unique constraint''), db')
           else (None, db'\<lparr>rows := rows db @ [task]\<rparr>)))"

text \<open>\<open>SELECT ... FROM tasks WHERE id = $1\<close>, scanned as one row\<close>

definition db_QueryRow_by_id :: "string \<Rightarrow> sql_DB \<Rightarrow> (error + Task) \<times> sql_DB" where
  "db_QueryRow_by_id tid db =
     (let (fault, fs) = next_fault (sql_faults db); db' = db\<lparr>sql_faults := fs\<rparr> in
      case fault of
        Some msg \<Rightarrow> (Inl (driver_error msg), db')
      | None \<Rightarrow>
          (case filter (\<lambda>r. ID r = tid) (rows db) of
             [] \<Rightarrow> (Inl sql_ErrNoRows, db')
           | r # rs \<Rightarrow> (Inr r, db')))"

text \<open>\<open>UPDATE tasks SET title, description, status, assignee, updated_at WHERE id = $6\<close>\<close>

definition db_Exec_update :: "Task \<Rightarrow> sql_DB \<Rightarrow> (error + sql_Result) \<times> sql_DB" where
  "db_Exec_update task db =
     (let (fault, fs) = next_fault (sql_faults db); db' = db\<lparr>sql_faults := fs\<rparr> in
      case fault of
        Some msg \<Rightarrow> (Inl (driver_error msg), db')
      | None \<Rightarrow>
          (Inr \<lparr>RowsAffected = Inr (int (length (filter (\<lambda>r. ID r = ID task) (rows db))))\<rparr>,
           db'\<lparr>rows := map (\<lambda>r. if ID r = ID task
                                  then r\<lparr>Title := Title task, Description := Description task,
                                         Status := Status task, Assignee := Assignee task,
                                         UpdatedAt := UpdatedAt task\<rparr>
                                  else r) (rows db)\<rparr>))"

text \<open>\<open>DELETE FROM tasks WHERE id = $1\<close>\<close>

definition db_Exec_delete :: "string \<Rightarrow> sql_DB \<Rightarrow> (error + sql_Result) \<times> sql_DB" where
  "db_Exec_delete tid db =
     (let (fault, fs) = next_fault (sql_faults db); db' = db\<lparr>sql_faults := fs\<rparr> in
      case fault of
        Some msg \<Rightarrow> (Inl (driver_error msg), db')
      | None \<Rightarrow>
          (Inr \<lparr>RowsAffected = Inr (int (length (filter (\<lambda>r. ID r = tid) (rows db))))\<rparr>,
           db'\<lparr>rows := filter (\<lambda>r. ID r \<noteq> tid) (rows db)\<rparr>))"

text \<open>\<open>SELECT COUNT(*) FROM tasks [WHERE ...]\<close>\<close>

definition db_QueryRow_count :: "(Task \<Rightarrow> bool) \<Rightarrow> sql_DB \<Rightarrow> (error + int) \<times> sql_DB" where
  "db_QueryRow_count wh db =
     (let (fault, fs) = next_fault (sql_faults db); db' = db\<lparr>sql_faults := fs\<rparr> in
      case fault of
        Some msg \<Rightarrow> (Inl (driver_error msg), db')
      | None \<Rightarrow> (Inr (int (length (filter wh (rows db)))), db'))"

text \<open>
  \<open>SELECT ... FROM tasks [WHERE ...] ORDER BY created_at DESC LIMIT l OFFSET o\<close>.
  PostgreSQL refuses a negative limit or offset. Rows created at the same instant come
  in an order the database chooses; here they keep their insertion order.
\<close>

definition db_Query_page :: "(Task \<Rightarrow> bool) \<Rightarrow> int \<Rightarrow> int \<Rightarrow> sql_DB \<Rightarrow> (error + Task list) \<times> sql_DB" where
  "db_Query_page wh l off db =
     (let (fault, fs) = next_fault (sql_faults db); db' = db\<lparr>sql_faults := fs\<rparr> in
      case fault of
        Some msg \<Rightarrow> (Inl (driver_error msg), db')
      | None \<Rightarrow>
          (if off < 0 then (Inl (driver_error ''pq: OFFSET must not be negative''), db')
           else if l < 0 then (Inl (driver_error ''pq: LIMIT must not be negative''), db')
           else (Inr (take (nat l) (drop (nat off)
                   (sort_key (\<lambda>r. - CreatedAt r) (filter wh (rows db))))), db')))"

text \<open>\<open>rows.Err()\<close> after the iteration: the connection may have failed meanwhile.\<close>

definition db_rows_Err :: "sql_DB \<Rightarrow> error option \<times> sql_DB" where
  "db_rows_Err db =
     (let (fault, fs) = next_fault (sql_faults db); db' = db\<lparr>sql_faults := fs\<rparr> in
      case fault of
        Some msg \<Rightarrow> (Some (driver_error msg), db')
      | None \<Rightarrow> (None, db'))"

section \<open>The repository\<close>

text \<open>
  \<open>TaskRepository\<close> is an interface: a record of methods over the state \<open>'r\<close> of
  whatever implements it. A method that returns a value and an error returns one of the
  two.
\<close>

record 'r TaskRepository =
  Create :: "Task \<Rightarrow> 'r \<Rightarrow> error option \<times> 'r"
  GetByID :: "string \<Rightarrow> 'r \<Rightarrow> (error + Task) \<times> 'r"
  GetAll :: "TaskFilter \<Rightarrow> 'r \<Rightarrow> (error + TaskSlice \<times> int) \<times> 'r"
  Update :: "Task \<Rightarrow> 'r \<Rightarrow> error option \<times> 'r"
  Delete :: "string \<Rightarrow> 'r \<Rightarrow> error option \<times> 'r"
  Count :: "'r \<Rightarrow> (error + int) \<times> 'r"

subsection \<open>PostgresTaskRepository\<close>

definition PostgresTaskRepository_Create :: "Task \<Rightarrow> sql_DB \<Rightarrow> error option \<times> sql_DB" where
  "PostgresTaskRepository_Create task db =
     (case db_Exec_insert task db of
        (Some err, db') \<Rightarrow> (Some (fmt_Errorf ''failed to create task'' err), db')
      | (None, db') \<Rightarrow> (None, db'))"

definition PostgresTaskRepository_GetByID :: "string \<Rightarrow> sql_DB \<Rightarrow> (error + Task) \<times> sql_DB" where
  "PostgresTaskRepository_GetByID tid db =
     (case db_QueryRow_by_id tid db of
        (Inl err, db') \<Rightarrow>
          (if err = sql_ErrNoRows then (Inl ErrTaskNotFound, db')
           else (Inl (fmt_Errorf ''failed to get task'' err), db'))
      | (Inr task, db') \<Rightarrow> (Inr task, db'))"

text \<open>The WHERE clause that \<open>GetAll\<close> builds from the filter.\<close>

definition whereClause :: "TaskFilter \<Rightarrow> Task \<Rightarrow> bool" where
  "whereClause f r =
     ((case F_Status f of None \<Rightarrow> True | Some s \<Rightarrow> Status r = s)
      \<and> (case F_Assignee f of None \<Rightarrow> True | Some a \<Rightarrow> Assignee r = a))"

definition PostgresTaskRepository_GetAll :: "TaskFilter \<Rightarrow> sql_DB \<Rightarrow> (error + TaskSlice \<times> int) \<times> sql_DB" where
  "PostgresTaskRepository_GetAll f db =
     (case db_QueryRow_count (whereClause f) db of
        (Inl err, db1) \<Rightarrow> (Inl (fmt_Errorf ''failed to count tasks'' err), db1)
      | (Inr total', db1) \<Rightarrow>
          (let page = (if F_Page f < 1 then 1 else F_Page f);
               pageSize = (if F_PageSize f < 1 then 10 else F_PageSize f);
               pageSize = (if pageSize > 100 then 100 else pageSize);
               offset = int64 (int64 (page - 1) * pageSize)
           in case db_Query_page (whereClause f) pageSize offset db1 of
                (Inl err, db2) \<Rightarrow> (Inl (fmt_Errorf ''failed to get tasks'' err), db2)
              | (Inr tasks, db2) \<Rightarrow>
                  (case db_rows_Err db2 of
                     (Some err, db3) \<Rightarrow> (Inl (fmt_Errorf ''error iterating tasks'' err), db3)
                   | (None, db3) \<Rightarrow> (Inr (Some tasks, total'), db3))))"

definition PostgresTaskRepository_Update :: "Task \<Rightarrow> sql_DB \<Rightarrow> error option \<times> sql_DB" where
  "PostgresTaskRepository_Update task db =
     (case db_Exec_update task db of
        (Inl err, db') \<Rightarrow> (Some (fmt_Errorf ''failed to update task'' err), db')
      | (Inr result, db') \<Rightarrow>
          (case RowsAffected result of
             Inl err \<Rightarrow> (Some (fmt_Errorf ''failed to get rows affected'' err), db')
           | Inr rowsAffected \<Rightarrow>
               (if rowsAffected = 0 then (Some ErrTaskNotFound, db') else (None, db'))))"

definition PostgresTaskRepository_Delete :: "string \<Rightarrow> sql_DB \<Rightarrow> error option \<times> sql_DB" where
  "PostgresTaskRepository_Delete tid db =
     (case db_Exec_delete tid db of
        (Inl err, db') \<Rightarrow> (Some (fmt_Errorf ''failed to delete task'' err), db')
      | (Inr result, db') \<Rightarrow>
          (case RowsAffected result of
             Inl err \<Rightarrow> (Some (fmt_Errorf ''failed to get rows affected'' err), db')
           | Inr rowsAffected \<Rightarrow>
               (if rowsAffected = 0 then (Some ErrTaskNotFound, db') else (None, db'))))"

definition PostgresTaskRepository_Count :: "sql_DB \<Rightarrow> (error + int) \<times> sql_DB" where
  "PostgresTaskRepository_Count db =
     (case db_QueryRow_count (\<lambda>r. True) db of
        (Inl err, db') \<Rightarrow> (Inl (fmt_Errorf ''failed to count tasks'' err), db')
      | (Inr n, db') \<Rightarrow> (Inr n, db'))"

definition PostgresTaskRepository :: "sql_DB TaskRepository" where
  "PostgresTaskRepository =
     \<lparr>Create = PostgresTaskRepository_Create,
      GetByID = PostgresTaskRepository_GetByID,
      GetAll = PostgresTaskRepository_GetAll,
      Update = PostgresTaskRepository_Update,
      Delete = PostgresTaskRepository_Delete,
      Count = PostgresTaskRepository_Count\<rparr>"

section \<open>TaskService\<close>

text \<open>
  The struct holds the repository and a pointer to the cache (\<open>None\<close> is the nil
  pointer). The record also carries what the two stand for, so that a method takes the
  service and returns it updated: the state of the repository, the Redis client behind
  the cache, the clock read by \<open>time.Now\<close> (a method reads it; time passes between
  calls, not inside one) and the supply of \<open>uuid.New\<close>. The field \<open>calls\<close> is a
  log of the calls made to the two collaborators, in order; the code does not read it.
\<close>

datatype call =
    repo_Create Task
  | repo_GetByID string
  | repo_GetAll TaskFilter
  | repo_Update Task
  | repo_Delete string
  | repo_Count
  | cache_GetTask string
  | cache_SetTask Task
  | cache_DeleteTask string
  | cache_GetTaskList string
  | cache_SetTaskList string TaskSlice
  | cache_InvalidateTaskList

record 'r TaskService =
  repo :: "'r TaskRepository"
  repo_state :: 'r
  cache :: "redis_Client option"
  clock :: int
  uuids :: "nat \<Rightarrow> string"
  uuid_next :: nat
  calls :: "call list"

definition uuid_New :: "'r TaskService \<Rightarrow> string \<times> 'r TaskService" where
  "uuid_New s = (uuids s (uuid_next s), s\<lparr>uuid_next := Suc (uuid_next s)\<rparr>)"

subsection \<open>Calls to the collaborators\<close>

definition s_repo_Create :: "Task \<Rightarrow> 'r TaskService \<Rightarrow> error option \<times> 'r TaskService" where
  "s_repo_Create task s =
     (let (r, st) = Create (repo s) task (repo_state s)
      in (r, s\<lparr>repo_state := st, calls := calls s @ [repo_Create task]\<rparr>))"

definition s_repo_GetByID :: "string \<Rightarrow> 'r TaskService \<Rightarrow> (error + Task) \<times> 'r TaskService" where
  "s_repo_GetByID tid s =
     (let (r, st) = GetByID (repo s) tid (repo_state s)
      in (r, s\<lparr>repo_state := st, calls := calls s @ [repo_GetByID tid]\<rparr>))"

definition s_repo_GetAll :: "TaskFilter \<Rightarrow> 'r TaskService \<Rightarrow> (error + TaskSlice \<times> int) \<times> 'r TaskService" where
  "s_repo_GetAll f s =
     (let (r, st) = GetAll (repo s) f (repo_state s)
      in (r, s\<lparr>repo_state := st, calls := calls s @ [repo_GetAll f]\<rparr>))"

definition s_repo_Update :: "Task \<Rightarrow> 'r TaskService \<Rightarrow> error option \<times> 'r TaskService" where
  "s_repo_Update task s =
     (let (r, st) = Update (repo s) task (repo_state s)
      in (r, s\<lparr>repo_state := st, calls := calls s @ [repo_Update task]\<rparr>))"

definition s_repo_Delete :: "string \<Rightarrow> 'r TaskService \<Rightarrow> error option \<times> 'r TaskService" where
  "s_repo_Delete tid s =
     (let (r, st) = Delete (repo s) tid (repo_state s)
      in (r, s\<lparr>repo_state := st, calls := calls s @ [repo_Delete tid]\<rparr>))"

definition s_repo_Count :: "'r TaskService \<Rightarrow> (error + int) \<times> 'r TaskService" where
  "s_repo_Count s =
     (let (r, st) = Count (repo s) (repo_state s)
      in (r, s\<lparr>repo_state := st, calls := calls s @ [repo_Count]\<rparr>))"

text \<open>
  A method of the cache runs on the client behind the pointer. The service calls one
  only after the test \<open>s.cache != nil\<close>, so the case \<open>None\<close> is never reached.
\<close>

definition s_cache :: "(redis_Client \<Rightarrow> 'a \<times> redis_Client) \<Rightarrow> call \<Rightarrow> 'a \<Rightarrow> 'r TaskService \<Rightarrow> 'a \<times> 'r TaskService" where
  "s_cache method ev unreached s =
     (case cache s of
        None \<Rightarrow> (unreached, s)
      | Some c \<Rightarrow>
          (let (r, c') = method c
           in (r, s\<lparr>cache := Some c', calls := calls s @ [ev]\<rparr>)))"

definition s_cache_GetTask :: "string \<Rightarrow> 'r TaskService \<Rightarrow> (Task option \<times> error option) \<times> 'r TaskService" where
  "s_cache_GetTask tid s = s_cache (RedisCache_GetTask tid) (cache_GetTask tid) (None, None) s"

definition s_cache_SetTask :: "Task \<Rightarrow> 'r TaskService \<Rightarrow> error option \<times> 'r TaskService" where
  "s_cache_SetTask task s = s_cache (RedisCache_SetTask task) (cache_SetTask task) None s"

definition s_cache_DeleteTask :: "string \<Rightarrow> 'r TaskService \<Rightarrow> error option \<times> 'r TaskService" where
  "s_cache_DeleteTask tid s = s_cache (RedisCache_DeleteTask tid) (cache_DeleteTask tid) None s"

definition s_cache_GetTaskList :: "string \<Rightarrow> 'r TaskService \<Rightarrow> (TaskSlice \<times> error option) \<times> 'r TaskService" where
  "s_cache_GetTaskList cacheKey s =
     s_cache (RedisCache_GetTaskList cacheKey) (cache_GetTaskList cacheKey) (None, None) s"

definition s_cache_SetTaskList :: "string \<Rightarrow> TaskSlice \<Rightarrow> 'r TaskService \<Rightarrow> error option \<times> 'r TaskService" where
  "s_cache_SetTaskList cacheKey tasks s =
     s_cache (RedisCache_SetTaskList cacheKey tasks) (cache_SetTaskList cacheKey tasks) None s"

definition s_cache_InvalidateTaskList :: "'r TaskService \<Rightarrow> error option \<times> 'r TaskService" where
  "s_cache_InvalidateTaskList s =
     s_cache RedisCache_InvalidateTaskList cache_InvalidateTaskList None s"

subsection \<open>The methods of the service\<close>

definition CreateTask :: "CreateTaskRequest \<Rightarrow> 'r TaskService \<Rightarrow> (error + Task) \<times> 'r TaskService" where
  "CreateTask req s =
     (if Req_Title req = [] then (Inl (errors_New ''title is required''), s)
      else if Req_Status req \<noteq> [] \<and> \<not> IsValidStatus (Req_Status req)
      then (Inl (errors_New ''invalid status''), s)
      else
        (let (uuid, s0) = uuid_New s;
             task = NewTask (clock s) uuid (Req_Title req) (Req_Description req)
                      (Req_Assignee req) (Req_Status req)
         in case s_repo_Create task s0 of
              (Some err, s1) \<Rightarrow> (Inl (fmt_Errorf ''failed to create task'' err), s1)
            | (None, s1) \<Rightarrow>
                (let s2 = (if cache s1 \<noteq> None then snd (s_cache_InvalidateTaskList s1) else s1)
                 in (Inr task, s2))))"

definition GetTask :: "string \<Rightarrow> 'r TaskService \<Rightarrow> (error + Task) \<times> 'r TaskService" where
  "GetTask tid s =
     (let (hit, s1) =
            (if cache s \<noteq> None
             then (let ((cachedTask, err), s') = s_cache_GetTask tid s
                   in if err = None \<and> cachedTask \<noteq> None then (cachedTask, s') else (None, s'))
             else (None, s))
      in case hit of
           Some cachedTask \<Rightarrow> (Inr cachedTask, s1)
         | None \<Rightarrow>
             (case s_repo_GetByID tid s1 of
                (Inl err, s2) \<Rightarrow> (Inl err, s2)
              | (Inr task, s2) \<Rightarrow>
                  (let s3 = (if cache s2 \<noteq> None then snd (s_cache_SetTask task s2) else s2)
                   in (Inr task, s3))))"

text \<open>
  \<open>(total + filter.PageSize - 1) / filter.PageSize\<close>, on 64-bit integers and with Go's
  division.
\<close>

definition pages_of :: "int \<Rightarrow> int \<Rightarrow> int" where
  "pages_of total' pageSize = go_quo (int64 (int64 (total' + pageSize) - 1)) pageSize"

text \<open>The filter \<open>&models.TaskFilter{}\<close> that stands in for a nil one.\<close>

definition zero_TaskFilter :: TaskFilter where
  "zero_TaskFilter = \<lparr>F_Status = None, F_Assignee = None, F_Page = 0, F_PageSize = 0\<rparr>"

text \<open>
  \<open>ListTasks\<close> writes the defaults into the filter it was given, through the pointer.
  The second component of the result is that filter after the call (\<open>None\<close> when the
  caller passed nil, and the method worked on a filter of its own).
\<close>

definition ListTasks :: "TaskFilter option \<Rightarrow> 'r TaskService \<Rightarrow> (error + TaskListResponse) \<times> TaskFilter option \<times> 'r TaskService" where
  "ListTasks flt s =
     (let f = (case flt of None \<Rightarrow> zero_TaskFilter | Some f \<Rightarrow> f);
          f = (if F_Page f < 1 then f\<lparr>F_Page := 1\<rparr> else f);
          f = (if F_PageSize f < 1 then f\<lparr>F_PageSize := 10\<rparr> else f);
          f = (if F_PageSize f > 100 then f\<lparr>F_PageSize := 100\<rparr> else f);
          flt' = (case flt of None \<Rightarrow> None | Some _ \<Rightarrow> Some f)
      in if (case F_Status f of None \<Rightarrow> False | Some st \<Rightarrow> \<not> IsValidStatus st)
         then (Inl (errors_New ''invalid status filter''), flt', s)
         else
           (let (hit, s1) =
                  (if cache s \<noteq> None
                   then (let cacheKey = GenerateCacheKey (Some f);
                             ((cachedTasks, err), s') = s_cache_GetTaskList cacheKey s
                         in if err = None \<and> cachedTasks \<noteq> None then (cachedTasks, s')
                            else (None, s'))
                   else (None, s))
            in case hit of
                 Some cachedTasks \<Rightarrow>
                   (let total' = len (Some cachedTasks);
                        totalPages = pages_of total' (F_PageSize f)
                    in (Inr \<lparr>Tasks = Some cachedTasks, Total = total', Page = F_Page f,
                             PageSize = F_PageSize f, TotalPages = totalPages\<rparr>, flt', s1))
               | None \<Rightarrow>
                   (case s_repo_GetAll f s1 of
                      (Inl err, s2) \<Rightarrow> (Inl (fmt_Errorf ''failed to list tasks'' err), flt', s2)
                    | (Inr (tasks, total'), s2) \<Rightarrow>
                        (let s3 = (if cache s2 \<noteq> None
                                   then snd (s_cache_SetTaskList (GenerateCacheKey (Some f)) tasks s2)
                                   else s2);
                             totalPages = pages_of total' (F_PageSize f);
                             totalPages = (if totalPages = 0 then 1 else totalPages)
                         in (Inr \<lparr>Tasks = tasks, Total = total', Page = F_Page f,
                                  PageSize = F_PageSize f, TotalPages = totalPages\<rparr>, flt', s3)))))"

definition UpdateTask :: "string \<Rightarrow> UpdateTaskRequest \<Rightarrow> 'r TaskService \<Rightarrow> (error + Task) \<times> 'r TaskService" where
  "UpdateTask tid req s =
     (case s_repo_GetByID tid s of
        (Inl err, s1) \<Rightarrow> (Inl err, s1)
      | (Inr task, s1) \<Rightarrow>
          (let task = (case Upd_Title req of None \<Rightarrow> task | Some t \<Rightarrow> task\<lparr>Title := t\<rparr>);
               task = (case Upd_Description req of None \<Rightarrow> task | Some d \<Rightarrow> task\<lparr>Description := d\<rparr>);
               checked = (case Upd_Status req of
                            None \<Rightarrow> Inr task
                          | Some st \<Rightarrow>
                              (if \<not> IsValidStatus st then Inl (errors_New ''invalid status'')
                               else Inr (task\<lparr>Status := st\<rparr>)))
           in case checked of
                Inl err \<Rightarrow> (Inl err, s1)
              | Inr task \<Rightarrow>
                  (let task = (case Upd_Assignee req of None \<Rightarrow> task | Some a \<Rightarrow> task\<lparr>Assignee := a\<rparr>);
                       task = task\<lparr>UpdatedAt := clock s1\<rparr>
                   in case s_repo_Update task s1 of
                        (Some err, s2) \<Rightarrow> (Inl (fmt_Errorf ''failed to update task'' err), s2)
                      | (None, s2) \<Rightarrow>
                          (let s3 = (if cache s2 \<noteq> None
                                     then snd (s_cache_InvalidateTaskList (snd (s_cache_DeleteTask tid s2)))
                                     else s2)
                           in (Inr task, s3)))))"

definition DeleteTask :: "string \<Rightarrow> 'r TaskService \<Rightarrow> error option \<times> 'r TaskService" where
  "DeleteTask tid s =
     (case s_repo_Delete tid s of
        (Some err, s1) \<Rightarrow> (Some err, s1)
      | (None, s1) \<Rightarrow>
          (let s2 = (if cache s1 \<noteq> None
                     then snd (s_cache_InvalidateTaskList (snd (s_cache_DeleteTask tid s1)))
                     else s1)
           in (None, s2)))"

definition GetTaskCount :: "'r TaskService \<Rightarrow> (error + int) \<times> 'r TaskService" where
  "GetTaskCount s = s_repo_Count s"

section \<open>Vocabulary of the properties\<close>

subsection \<open>Filters\<close>

text \<open>The filter that \<open>ListTasks\<close> works on: the caller's, or a zero one for nil.\<close>

definition filter_or_zero :: "TaskFilter option \<Rightarrow> TaskFilter" where
  "filter_or_zero flt = (case flt of None \<Rightarrow> zero_TaskFilter | Some f \<Rightarrow> f)"

text \<open>
  The normalised filter in the words of the specification: a page below 1 becomes 1, a
  page size below 1 becomes 10, a page size above 100 becomes 100, and nothing else
  changes.
\<close>

definition spec_normalized :: "TaskFilter \<Rightarrow> TaskFilter" where
  "spec_normalized f =
     f\<lparr>F_Page := (if F_Page f < 1 then 1 else F_Page f),
       F_PageSize := (if F_PageSize f < 1 then 10
                      else if F_PageSize f > 100 then 100 else F_PageSize f)\<rparr>"

text \<open>The status predicate of a filter is absent or in the enumeration.\<close>

definition status_ok :: "TaskFilter \<Rightarrow> bool" where
  "status_ok f = (case F_Status f of None \<Rightarrow> True | Some st \<Rightarrow> IsValidStatus st)"

subsection \<open>Requests\<close>

text \<open>A create request passes the two checks of \<open>CreateTask\<close>.\<close>

definition create_request_ok :: "CreateTaskRequest \<Rightarrow> bool" where
  "create_request_ok req =
     (Req_Title req \<noteq> [] \<and> (Req_Status req = [] \<or> IsValidStatus (Req_Status req)))"

text \<open>The record that \<open>CreateTask\<close> builds for a request.\<close>

definition created_task :: "CreateTaskRequest \<Rightarrow> 'r TaskService \<Rightarrow> Task" where
  "created_task req s =
     NewTask (clock s) (uuids s (uuid_next s)) (Req_Title req) (Req_Description req)
       (Req_Assignee req) (Req_Status req)"

text \<open>The status of an update request is absent or in the enumeration.\<close>

definition update_status_ok :: "UpdateTaskRequest \<Rightarrow> bool" where
  "update_status_ok req = (case Upd_Status req of None \<Rightarrow> True | Some st \<Rightarrow> IsValidStatus st)"

text \<open>
  The record that \<open>UpdateTask\<close> hands to the repository: the fields present in the
  request replace those of the stored record, and the update time is refreshed.
\<close>

definition apply_update :: "UpdateTaskRequest \<Rightarrow> int \<Rightarrow> Task \<Rightarrow> Task" where
  "apply_update req now task =
     task\<lparr>Title := (case Upd_Title req of None \<Rightarrow> Title task | Some t \<Rightarrow> t),
          Description := (case Upd_Description req of None \<Rightarrow> Description task | Some d \<Rightarrow> d),
          Status := (case Upd_Status req of None \<Rightarrow> Status task | Some st \<Rightarrow> st),
          Assignee := (case Upd_Assignee req of None \<Rightarrow> Assignee task | Some a \<Rightarrow> a),
          UpdatedAt := now\<rparr>"

text \<open>
  The errors with which the service refuses a request: the kind that the specification
  calls invalid input.
\<close>

definition InvalidInput :: "error \<Rightarrow> bool" where
  "InvalidInput e =
     (e = errors_New ''title is required'' \<or> e = errors_New ''invalid status''
      \<or> e = errors_New ''invalid status filter'')"

subsection \<open>The cache\<close>

text \<open>
  The tests \<open>s.cache != nil\<close> and \<open>err == nil && cached != nil\<close> that decide whether a
  read is served from the cache.
\<close>

definition list_cache_hit :: "'r TaskService \<Rightarrow> TaskFilter \<Rightarrow> bool" where
  "list_cache_hit s f =
     (case cache s of
        None \<Rightarrow> False
      | Some c \<Rightarrow>
          (case fst (RedisCache_GetTaskList (GenerateCacheKey (Some f)) c) of
             (cachedTasks, err) \<Rightarrow> err = None \<and> cachedTasks \<noteq> None))"

definition task_cache_hit :: "'r TaskService \<Rightarrow> string \<Rightarrow> bool" where
  "task_cache_hit s tid =
     (case cache s of
        None \<Rightarrow> False
      | Some c \<Rightarrow>
          (case fst (RedisCache_GetTask tid c) of
             (cachedTask, err) \<Rightarrow> err = None \<and> cachedTask \<noteq> None))"

text \<open>The state after the two evictions that follow an update or a deletion.\<close>

definition evicted :: "string \<Rightarrow> redis_Client \<Rightarrow> redis_Client" where
  "evicted tid c = snd (RedisCache_InvalidateTaskList (snd (RedisCache_DeleteTask tid c)))"

subsection \<open>The log of calls\<close>

text \<open>The calls that one method added to the log.\<close>

definition new_calls :: "'r TaskService \<Rightarrow> 'r TaskService \<Rightarrow> call list" where
  "new_calls s s' = drop (length (calls s)) (calls s')"

text \<open>
  The record that a call asks the repository to persist, if the call is a write of a
  record. A call persists a valid record if that record, when there is one, has a status
  in the enumeration. A database is valid if every row has such a status.
\<close>

fun persisted :: "call \<Rightarrow> Task option" where
  "persisted (repo_Create t) = Some t"
| "persisted (repo_Update t) = Some t"
| "persisted c = None"

definition persists_valid :: "call \<Rightarrow> bool" where
  "persists_valid c = (case persisted c of None \<Rightarrow> True | Some t \<Rightarrow> IsValidStatus (Status t))"

definition persists_nothing :: "call \<Rightarrow> bool" where
  "persists_nothing c = (persisted c = None)"

definition valid_rows :: "sql_DB \<Rightarrow> bool" where
  "valid_rows db = list_all (\<lambda>r. IsValidStatus (Status r)) (rows db)"

section \<open>An example deployment\<close>

text \<open>
  The PostgreSQL repository over a table of fifteen pending tasks, with an empty Redis
  cache, both answering every command.
\<close>

definition example_uuids :: "nat \<Rightarrow> string" where
  "example_uuids n = ''uuid-'' @ digits n"

definition example_task :: "nat \<Rightarrow> Task" where
  "example_task n =
     \<lparr>ID = example_uuids n, Title = ''Pagination Test Task'', Description = ''Testing pagination'',
      Status = TaskStatusPending, Assignee = ''pagination@example.com'',
      CreatedAt = int n, UpdatedAt = int n\<rparr>"

definition example_db :: sql_DB where
  "example_db = \<lparr>rows = map example_task [0..<15], sql_faults = []\<rparr>"

definition example_service :: "sql_DB TaskService" where
  "example_service =
     \<lparr>repo = PostgresTaskRepository, repo_state = example_db,
      cache = Some \<lparr>kv = [], redis_faults = []\<rparr>,
      clock = 100, uuids = example_uuids, uuid_next = 15, calls = []\<rparr>"

text \<open>
  Requests: the first page of ten; a query that matches none of the fifteen tasks; a
  valid create request that leaves the status empty; a valid update of the status; an
  update whose status is outside the enumeration.
\<close>

definition example_first_page :: "TaskFilter option" where
  "example_first_page = Some \<lparr>F_Status = None, F_Assignee = None, F_Page = 1, F_PageSize = 10\<rparr>"

definition example_completed :: "TaskFilter option" where
  "example_completed =
     Some \<lparr>F_Status = Some TaskStatusCompleted, F_Assignee = None, F_Page = 1, F_PageSize = 10\<rparr>"

definition example_create :: CreateTaskRequest where
  "example_create =
     \<lparr>Req_Title = ''Buy milk'', Req_Description = [], Req_Status = [],
      Req_Assignee = ''new@example.com''\<rparr>"

definition example_update :: UpdateTaskRequest where
  "example_update =
     \<lparr>Upd_Title = None, Upd_Description = None, Upd_Status = Some TaskStatusCompleted,
      Upd_Assignee = None\<rparr>"

definition example_bad_update :: UpdateTaskRequest where
  "example_bad_update =
     \<lparr>Upd_Title = None, Upd_Description = None, Upd_Status = Some ''invalid_status'',
      Upd_Assignee = None\<rparr>"

text \<open>
  The deployment after the first page has been listed, and so cached; after one task has
  been read as well, so that the cache holds a page and a single record; while Redis
  refuses the next commands; and while the database refuses the next command.
\<close>

definition example_service_warm :: "sql_DB TaskService" where
  "example_service_warm = snd (snd (ListTasks example_first_page example_service))"


definition example_service_redis_down :: "sql_DB TaskService" where
  "example_service_redis_down =
     example_service
       \<lparr>cache := Some \<lparr>kv = [], redis_faults = [Some ''connection refused'',
                                                Some ''connection refused'',
                                                Some ''connection refused'']\<rparr>\<rparr>"






section \<open>Integer arithmetic of the page count\<close>

lemma int64_id: "- (2 ^ 63) \<le> x \<Longrightarrow> x < 2 ^ 63 \<Longrightarrow> int64 x = x"
  by (simp add: int64_def)

lemma go_quo_nonneg: "0 \<le> a \<Longrightarrow> 0 < b \<Longrightarrow> go_quo a b = a div b"
  by (cases "a = 0") (simp_all add: go_quo_def)

lemma pages_of_div:
  assumes "0 \<le> n" "n \<le> 2 ^ 63 - 101" "1 \<le> ps" "ps \<le> 100"
  shows "pages_of n ps = (n + ps - 1) div ps"
proof -
  have a: "int64 (n + ps) = n + ps" using assms by (intro int64_id) simp_all
  have b: "int64 (n + ps - 1) = n + ps - 1" using assms by (intro int64_id) simp_all
  show ?thesis using assms by (simp add: pages_of_def a b go_quo_nonneg)
qed

lemma ceiling_div_up:
  fixes n ps :: int
  assumes "0 < ps"
  shows "\<lceil>real_of_int n / real_of_int ps\<rceil> = (n + ps - 1) div ps"
proof -
  define z where "z = (n + ps - 1) div ps"
  define r where "r = (n + ps - 1) mod ps"
  have m: "n + ps - 1 = z * ps + r"
    by (simp add: z_def r_def)
  have r: "0 \<le> r" "r < ps"
    using assms by (simp_all add: r_def)
  have lo: "(z - 1) * ps < n"
    using m r by (simp add: algebra_simps)
  have hi: "n \<le> z * ps"
    using m r by (simp add: algebra_simps)
  have ps: "0 < real_of_int ps"
    using assms by simp
  have "real_of_int ((z - 1) * ps) < real_of_int n"
    using lo by (simp only: of_int_less_iff)
  then have lo': "real_of_int z - 1 < real_of_int n / real_of_int ps"
    using ps by (simp add: pos_less_divide_eq)
  have "real_of_int n \<le> real_of_int (z * ps)"
    using hi by (simp only: of_int_le_iff)
  then have hi': "real_of_int n / real_of_int ps \<le> real_of_int z"
    using ps by (simp add: pos_divide_le_eq)
  from lo' hi' show ?thesis
    unfolding z_def [symmetric] by (rule ceiling_unique)
qed

lemma spec_normalized_PageSize:
  "1 \<le> F_PageSize (spec_normalized f) \<and> F_PageSize (spec_normalized f) \<le> 100"
  by (simp add: spec_normalized_def)

lemma pages_of_ceiling:
  assumes "0 \<le> n" "n \<le> 2 ^ 63 - 101" "1 \<le> ps" "ps \<le> 100"
  shows "pages_of n ps = \<lceil>real_of_int n / real_of_int ps\<rceil>"
  using assms by (simp add: pages_of_div ceiling_div_up)

section \<open>ListTasks, case by case\<close>

lemma norm_chain:
  "(if 100 < F_PageSize (if F_PageSize (if F_Page f0 < 1 then f0\<lparr>F_Page := 1\<rparr> else f0) < 1
                          then (if F_Page f0 < 1 then f0\<lparr>F_Page := 1\<rparr> else f0)\<lparr>F_PageSize := 10\<rparr>
                          else (if F_Page f0 < 1 then f0\<lparr>F_Page := 1\<rparr> else f0))
    then (if F_PageSize (if F_Page f0 < 1 then f0\<lparr>F_Page := 1\<rparr> else f0) < 1
          then (if F_Page f0 < 1 then f0\<lparr>F_Page := 1\<rparr> else f0)\<lparr>F_PageSize := 10\<rparr>
          else (if F_Page f0 < 1 then f0\<lparr>F_Page := 1\<rparr> else f0))\<lparr>F_PageSize := 100\<rparr>
    else (if F_PageSize (if F_Page f0 < 1 then f0\<lparr>F_Page := 1\<rparr> else f0) < 1
          then (if F_Page f0 < 1 then f0\<lparr>F_Page := 1\<rparr> else f0)\<lparr>F_PageSize := 10\<rparr>
          else (if F_Page f0 < 1 then f0\<lparr>F_Page := 1\<rparr> else f0)))
   = spec_normalized f0"
  by (simp add: spec_normalized_def)

text \<open>The three assignments at the head of \<open>ListTasks\<close> compute \<open>spec_normalized\<close>.\<close>

lemma ListTasks_norm:
  "ListTasks flt s =
     (let f = spec_normalized (filter_or_zero flt);
          flt' = (case flt of None \<Rightarrow> None | Some _ \<Rightarrow> Some f)
      in if (case F_Status f of None \<Rightarrow> False | Some st \<Rightarrow> \<not> IsValidStatus st)
         then (Inl (errors_New ''invalid status filter''), flt', s)
         else
           (let (hit, s1) =
                  (if cache s \<noteq> None
                   then (let cacheKey = GenerateCacheKey (Some f);
                             ((cachedTasks, err), s') = s_cache_GetTaskList cacheKey s
                         in if err = None \<and> cachedTasks \<noteq> None then (cachedTasks, s')
                            else (None, s'))
                   else (None, s))
            in case hit of
                 Some cachedTasks \<Rightarrow>
                   (let total' = len (Some cachedTasks);
                        totalPages = pages_of total' (F_PageSize f)
                    in (Inr \<lparr>Tasks = Some cachedTasks, Total = total', Page = F_Page f,
                             PageSize = F_PageSize f, TotalPages = totalPages\<rparr>, flt', s1))
               | None \<Rightarrow>
                   (case s_repo_GetAll f s1 of
                      (Inl err, s2) \<Rightarrow> (Inl (fmt_Errorf ''failed to list tasks'' err), flt', s2)
                    | (Inr (tasks, total'), s2) \<Rightarrow>
                        (let s3 = (if cache s2 \<noteq> None
                                   then snd (s_cache_SetTaskList (GenerateCacheKey (Some f)) tasks s2)
                                   else s2);
                             totalPages = pages_of total' (F_PageSize f);
                             totalPages = (if totalPages = 0 then 1 else totalPages)
                         in (Inr \<lparr>Tasks = tasks, Total = total', Page = F_Page f,
                                  PageSize = F_PageSize f, TotalPages = totalPages\<rparr>, flt', s3)))))"
  unfolding ListTasks_def filter_or_zero_def[symmetric]
  unfolding Let_def norm_chain
  by (rule refl)

lemma status_ok_case:
  "(case F_Status (spec_normalized f) of None \<Rightarrow> False | Some st \<Rightarrow> \<not> IsValidStatus st)
     = (\<not> status_ok f)"
  by (simp add: status_ok_def spec_normalized_def split: option.splits)

lemma caller_filter_map:
  "(case flt of None \<Rightarrow> None | Some _ \<Rightarrow> Some (spec_normalized (filter_or_zero flt)))
     = map_option spec_normalized flt"
  by (cases flt) (simp_all add: filter_or_zero_def)

lemma ListTasks_rejected:
  assumes "\<not> status_ok (filter_or_zero flt)"
  shows "ListTasks flt s =
           (Inl (errors_New ''invalid status filter''), map_option spec_normalized flt, s)"
  using assms
  by (simp add: ListTasks_norm Let_def status_ok_case caller_filter_map)

lemma ListTasks_hit:
  assumes "status_ok (filter_or_zero flt)"
    and "cache s = Some c"
    and "RedisCache_GetTaskList (GenerateCacheKey (Some (spec_normalized (filter_or_zero flt)))) c
           = ((Some xs, None), c')"
  shows "ListTasks flt s =
           (let f = spec_normalized (filter_or_zero flt) in
            (Inr \<lparr>Tasks = Some xs, Total = int (length xs), Page = F_Page f,
                   PageSize = F_PageSize f,
                   TotalPages = pages_of (int (length xs)) (F_PageSize f)\<rparr>,
             map_option spec_normalized flt,
             s\<lparr>cache := Some c',
               calls := calls s @ [cache_GetTaskList (GenerateCacheKey (Some f))]\<rparr>))"
  using assms
  by (simp add: ListTasks_norm Let_def status_ok_case caller_filter_map
        s_cache_GetTaskList_def s_cache_def len_def)

lemma ListTasks_miss:
  assumes "status_ok (filter_or_zero flt)"
    and "cache s = Some c"
    and "RedisCache_GetTaskList (GenerateCacheKey (Some (spec_normalized (filter_or_zero flt)))) c
           = ((ts, err), c')"
    and "err \<noteq> None \<or> ts = None"
  shows "ListTasks flt s =
           (let f = spec_normalized (filter_or_zero flt); key = GenerateCacheKey (Some f) in
            case GetAll (repo s) f (repo_state s) of
              (Inl e, st) \<Rightarrow>
                (Inl (fmt_Errorf ''failed to list tasks'' e), map_option spec_normalized flt,
                 s\<lparr>repo_state := st, cache := Some c',
                   calls := calls s @ [cache_GetTaskList key, repo_GetAll f]\<rparr>)
            | (Inr (tasks, n), st) \<Rightarrow>
                (Inr \<lparr>Tasks = tasks, Total = n, Page = F_Page f, PageSize = F_PageSize f,
                       TotalPages = (if pages_of n (F_PageSize f) = 0 then 1
                                     else pages_of n (F_PageSize f))\<rparr>,
                 map_option spec_normalized flt,
                 s\<lparr>repo_state := st, cache := Some (snd (RedisCache_SetTaskList key tasks c')),
                   calls := calls s @ [cache_GetTaskList key, repo_GetAll f,
                                       cache_SetTaskList key tasks]\<rparr>))"
proof -
  let ?f = "spec_normalized (filter_or_zero flt)"
  obtain r st where g: "GetAll (repo s) ?f (repo_state s) = (r, st)"
    by (cases "GetAll (repo s) ?f (repo_state s)")
  have miss: "(if err = None \<and> ts \<noteq> None then (ts, x) else (None, x)) = (None, x)"
    for x :: "'a TaskService"
    using assms(4) by auto
  show ?thesis
  proof (cases r)
    case (Inl e)
    with assms(1-3) miss g show ?thesis
      by (simp add: ListTasks_norm Let_def status_ok_case caller_filter_map
            s_cache_GetTaskList_def s_cache_def s_repo_GetAll_def)
  next
    case (Inr p)
    obtain tasks n where p: "p = (tasks, n)" by (cases p)
    obtain e2 c2 where st: "RedisCache_SetTaskList (GenerateCacheKey (Some ?f)) tasks c' = (e2, c2)"
      by (cases "RedisCache_SetTaskList (GenerateCacheKey (Some ?f)) tasks c'")
    from Inr p assms(1-3) miss g st show ?thesis
      by (simp add: ListTasks_norm Let_def status_ok_case caller_filter_map
            s_cache_GetTaskList_def s_cache_SetTaskList_def s_cache_def s_repo_GetAll_def)
  qed
qed

lemma ListTasks_nocache:
  assumes "status_ok (filter_or_zero flt)"
    and "cache s = None"
  shows "ListTasks flt s =
           (let f = spec_normalized (filter_or_zero flt) in
            case GetAll (repo s) f (repo_state s) of
              (Inl e, st) \<Rightarrow>
                (Inl (fmt_Errorf ''failed to list tasks'' e), map_option spec_normalized flt,
                 s\<lparr>repo_state := st, calls := calls s @ [repo_GetAll f]\<rparr>)
            | (Inr (tasks, n), st) \<Rightarrow>
                (Inr \<lparr>Tasks = tasks, Total = n, Page = F_Page f, PageSize = F_PageSize f,
                       TotalPages = (if pages_of n (F_PageSize f) = 0 then 1
                                     else pages_of n (F_PageSize f))\<rparr>,
                 map_option spec_normalized flt,
                 s\<lparr>repo_state := st, calls := calls s @ [repo_GetAll f]\<rparr>))"
proof -
  let ?f = "spec_normalized (filter_or_zero flt)"
  obtain r st where g: "GetAll (repo s) ?f (repo_state s) = (r, st)"
    by (cases "GetAll (repo s) ?f (repo_state s)")
  show ?thesis
  proof (cases r)
    case (Inl e)
    with assms g show ?thesis
      by (simp add: ListTasks_norm Let_def status_ok_case caller_filter_map s_repo_GetAll_def)
  next
    case (Inr p)
    obtain tasks n where p: "p = (tasks, n)" by (cases p)
    from Inr p assms g show ?thesis
      by (simp add: ListTasks_norm Let_def status_ok_case caller_filter_map s_repo_GetAll_def)
  qed
qed

section \<open>Normalisation of the filter\<close>

text \<open>
  Claim C9. \<open>ListTasks\<close> normalises the filter before anything else: a page below 1
  becomes 1, a page size below 1 becomes 10, a page size above 100 becomes 100, and a
  page of at least 1 and a page size from 1 to 100 stay as they are. The normalised
  filter is what the caller's filter holds after the call, whatever the outcome; its page
  and page size are those of every response; and every call that \<open>ListTasks\<close> makes to
  the cache or to the repository carries the normalised filter or the key derived from
  it.
\<close>

theorem C9_ListTasks_normalizes_filter:
  fixes s :: "'r TaskService"
  shows "(case ListTasks flt s of (r, flt', s') \<Rightarrow>
            (let f = filter_or_zero flt; nf = spec_normalized f; key = GenerateCacheKey (Some nf) in
               F_Page nf = (if F_Page f < 1 then 1 else F_Page f)
             \<and> F_PageSize nf = (if F_PageSize f < 1 then 10
                                 else if F_PageSize f > 100 then 100 else F_PageSize f)
             \<and> F_Status nf = F_Status f \<and> F_Assignee nf = F_Assignee f
             \<and> flt' = map_option (\<lambda>_. nf) flt
             \<and> (\<forall>resp. r = Inr resp \<longrightarrow> Page resp = F_Page nf \<and> PageSize resp = F_PageSize nf)
             \<and> (\<forall>c \<in> set (new_calls s s').
                   c = cache_GetTaskList key \<or> c = repo_GetAll nf
                   \<or> (\<exists>ts. c = cache_SetTaskList key ts))))"
proof -
  let ?f = "filter_or_zero flt"
  let ?nf = "spec_normalized ?f"
  have m: "map_option spec_normalized flt = map_option (\<lambda>_. ?nf) flt"
    by (cases flt) (simp_all add: filter_or_zero_def)
  have n: "F_Page ?nf = (if F_Page ?f < 1 then 1 else F_Page ?f)
         \<and> F_PageSize ?nf = (if F_PageSize ?f < 1 then 10
                                 else if F_PageSize ?f > 100 then 100 else F_PageSize ?f)
         \<and> F_Status ?nf = F_Status ?f \<and> F_Assignee ?nf = F_Assignee ?f"
    by (simp add: spec_normalized_def)
  show ?thesis
  proof (cases "status_ok ?f")
    case False
    show ?thesis
      using n by (simp add: ListTasks_rejected[OF False] Let_def m new_calls_def)
  next
    case ok: True
    show ?thesis
    proof (cases "cache s")
      case None
      obtain r st where g: "GetAll (repo s) ?nf (repo_state s) = (r, st)"
        by (cases "GetAll (repo s) ?nf (repo_state s)")
      show ?thesis
        using n g
        by (cases r) (auto simp: ListTasks_nocache[OF ok None] Let_def m new_calls_def)
    next
      case (Some c)
      obtain ts err c' where l: "RedisCache_GetTaskList (GenerateCacheKey (Some ?nf)) c = ((ts, err), c')"
        by (cases "RedisCache_GetTaskList (GenerateCacheKey (Some ?nf)) c") auto
      show ?thesis
      proof (cases "err \<noteq> None \<or> ts = None")
        case True
        obtain r st where g: "GetAll (repo s) ?nf (repo_state s) = (r, st)"
          by (cases "GetAll (repo s) ?nf (repo_state s)")
        show ?thesis
          using n g
          by (cases r) (auto simp: ListTasks_miss[OF ok Some l True] Let_def m new_calls_def)
      next
        case False
        then obtain xs where "ts = Some xs" "err = None" by auto
        with l have l': "RedisCache_GetTaskList (GenerateCacheKey (Some ?nf)) c = ((Some xs, None), c')"
          by simp
        show ?thesis
          using n by (simp add: ListTasks_hit[OF ok Some l'] Let_def m new_calls_def)
      qed
    qed
  qed
qed

theorem C9_ListTasks_normalizes_filter_witness:
  "fst (snd (ListTasks (Some \<lparr>F_Status = None, F_Assignee = None, F_Page = 0, F_PageSize = 150\<rparr>)
               example_service))
     = Some \<lparr>F_Status = None, F_Assignee = None, F_Page = 1, F_PageSize = 100\<rparr>
   \<and> map_sum id Page
        (fst (ListTasks (Some \<lparr>F_Status = None, F_Assignee = None, F_Page = 0, F_PageSize = 150\<rparr>)
                example_service)) = Inr 1
   \<and> map_sum id PageSize
        (fst (ListTasks (Some \<lparr>F_Status = None, F_Assignee = None, F_Page = 0, F_PageSize = 150\<rparr>)
                example_service)) = Inr 100
   \<and> length (new_calls example_service
        (snd (snd (ListTasks (Some \<lparr>F_Status = None, F_Assignee = None, F_Page = 0, F_PageSize = 150\<rparr>)
                     example_service)))) = 3"
proof -
  let ?F = "Some \<lparr>F_Status = None, F_Assignee = None, F_Page = 0, F_PageSize = 150\<rparr>"
  obtain r flt' s' where e: "ListTasks ?F example_service = (r, flt', s')"
    by (cases "ListTasks ?F example_service")
  have "\<not> isl (fst (ListTasks ?F example_service))"
    by code_simp
  with e obtain resp where r: "r = Inr resp"
    by (cases r) simp_all
  have n: "length (new_calls example_service (snd (snd (ListTasks ?F example_service)))) = 3"
    by code_simp
  from C9_ListTasks_normalizes_filter [of ?F example_service] e r n
  show ?thesis
    by (simp add: Let_def filter_or_zero_def spec_normalized_def)
qed


section \<open>Listing on a cache hit\<close>

text \<open>
  Claim C1. On a cache hit, that is when the cache returns a non-nil collection and no
  error for the key derived from the normalised filter, \<open>ListTasks\<close> succeeds with the
  cached slice, \<open>Total\<close> is the length of that slice, \<open>TotalPages\<close> is the ceiling of
  that length over the page size, and the only call the method makes is the cache
  lookup: the repository's \<open>GetAll\<close> is not called and its state is untouched. The
  length of a slice is far below the bound assumed here.
\<close>

theorem C1_cache_hit_counts_cached_slice:
  fixes s :: "'r TaskService"
  assumes "status_ok (filter_or_zero flt)"
    and "cache s = Some c"
    and "fst (RedisCache_GetTaskList
                (GenerateCacheKey (Some (spec_normalized (filter_or_zero flt)))) c)
           = (Some xs, None)"
    and "int (length xs) \<le> 2 ^ 63 - 101"
  shows "\<exists>resp flt' s'.
           ListTasks flt s = (Inr resp, flt', s')
         \<and> Tasks resp = Some xs
         \<and> Total resp = int (length xs)
         \<and> PageSize resp = F_PageSize (spec_normalized (filter_or_zero flt))
         \<and> TotalPages resp = \<lceil>real (length xs) / real_of_int (PageSize resp)\<rceil>
         \<and> new_calls s s'
             = [cache_GetTaskList (GenerateCacheKey (Some (spec_normalized (filter_or_zero flt))))]
         \<and> (\<forall>f. repo_GetAll f \<notin> set (new_calls s s'))
         \<and> repo_state s' = repo_state s"
proof -
  let ?nf = "spec_normalized (filter_or_zero flt)"
  obtain c' where l: "RedisCache_GetTaskList (GenerateCacheKey (Some ?nf)) c = ((Some xs, None), c')"
    using assms(3) by (cases "RedisCache_GetTaskList (GenerateCacheKey (Some ?nf)) c") simp
  have p: "pages_of (int (length xs)) (F_PageSize ?nf)
             = \<lceil>real_of_int (int (length xs)) / real_of_int (F_PageSize ?nf)\<rceil>"
    using assms(4) spec_normalized_PageSize [of "filter_or_zero flt"]
    by (intro pages_of_ceiling) simp_all
  show ?thesis
    using p by (simp add: ListTasks_hit [OF assms(1,2) l] Let_def new_calls_def)
qed

theorem C1_cache_hit_counts_cached_slice_witness:
  "map_sum id Total (fst (ListTasks example_first_page example_service_warm)) = Inr 10
   \<and> map_sum id TotalPages (fst (ListTasks example_first_page example_service_warm)) = Inr 1
   \<and> new_calls example_service_warm (snd (snd (ListTasks example_first_page example_service_warm)))
       = [cache_GetTaskList ''tasks:list:page:1:size:10'']
   \<and> length (rows (repo_state (snd (snd (ListTasks example_first_page example_service_warm))))) = 15"
proof -
  let ?xs = "map example_task (rev [5..<15])"
  have a: "status_ok (filter_or_zero example_first_page)"
    by code_simp
  have b: "cache example_service_warm = Some (the (cache example_service_warm))"
    by code_simp
  have c: "fst (RedisCache_GetTaskList
                  (GenerateCacheKey (Some (spec_normalized (filter_or_zero example_first_page))))
                  (the (cache example_service_warm)))
             = (Some ?xs, None)"
    by code_simp
  have d: "int (length ?xs) \<le> 2 ^ 63 - 101"
    by simp
  have k: "GenerateCacheKey (Some (spec_normalized (filter_or_zero example_first_page)))
             = ''tasks:list:page:1:size:10''"
    by code_simp
  have p: "F_PageSize (spec_normalized (filter_or_zero example_first_page)) = 10"
    by code_simp
  have r: "length (rows (repo_state example_service_warm)) = 15"
    by code_simp
  from C1_cache_hit_counts_cached_slice [OF a b c d] show ?thesis
    by (auto simp: k p r)
qed

section \<open>Listing on a cache miss\<close>

text \<open>
  What \<open>ListTasks\<close> returns when the status filter is acceptable and the read is not
  served from the cache: the outcome of the repository's \<open>GetAll\<close> on the normalised
  filter, whatever the cache answered and whether or not the page could be cached.
\<close>

lemma ListTasks_not_hit:
  fixes s :: "'r TaskService"
  assumes "status_ok (filter_or_zero flt)"
    and "\<not> list_cache_hit s (spec_normalized (filter_or_zero flt))"
  shows "\<exists>s'. ListTasks flt s =
           (let f = spec_normalized (filter_or_zero flt) in
            case fst (GetAll (repo s) f (repo_state s)) of
              Inl e \<Rightarrow> Inl (fmt_Errorf ''failed to list tasks'' e)
            | Inr (tasks, n) \<Rightarrow>
                Inr \<lparr>Tasks = tasks, Total = n, Page = F_Page f, PageSize = F_PageSize f,
                      TotalPages = (if pages_of n (F_PageSize f) = 0 then 1
                                    else pages_of n (F_PageSize f))\<rparr>,
            map_option spec_normalized flt, s')"
proof -
  let ?nf = "spec_normalized (filter_or_zero flt)"
  obtain r st where g: "GetAll (repo s) ?nf (repo_state s) = (r, st)"
    by (cases "GetAll (repo s) ?nf (repo_state s)")
  show ?thesis
  proof (cases "cache s")
    case None
    show ?thesis
      using g by (cases r) (auto simp: ListTasks_nocache [OF assms(1) None] Let_def)
  next
    case (Some c)
    obtain ts err c' where l: "RedisCache_GetTaskList (GenerateCacheKey (Some ?nf)) c = ((ts, err), c')"
      by (cases "RedisCache_GetTaskList (GenerateCacheKey (Some ?nf)) c") auto
    with assms(2) Some have m: "err \<noteq> None \<or> ts = None"
      by (auto simp: list_cache_hit_def)
    show ?thesis
      using g by (cases r) (auto simp: ListTasks_miss [OF assms(1) Some l m] Let_def)
  qed
qed

text \<open>
  Claim C6. When \<open>ListTasks\<close> is not served from the cache and the repository's
  \<open>GetAll\<close> succeeds with a total \<open>n\<close> (a count, so not negative, and far below the
  bound assumed here), the response reports that total and \<open>TotalPages\<close> is the ceiling
  of \<open>n\<close> over the page size, or 1 when that is 0, which is the case exactly when
  \<open>n = 0\<close>. With a total of 15 and a page size of 10 there are 2 pages.
\<close>

theorem C6_cache_miss_total_pages:
  fixes s :: "'r TaskService"
  assumes "status_ok (filter_or_zero flt)"
    and "\<not> list_cache_hit s (spec_normalized (filter_or_zero flt))"
    and "fst (GetAll (repo s) (spec_normalized (filter_or_zero flt)) (repo_state s))
           = Inr (tasks, n)"
    and "0 \<le> n" and "n \<le> 2 ^ 63 - 101"
  shows "\<exists>resp flt' s'.
           ListTasks flt s = (Inr resp, flt', s')
         \<and> Tasks resp = tasks
         \<and> Total resp = n
         \<and> PageSize resp = F_PageSize (spec_normalized (filter_or_zero flt))
         \<and> TotalPages resp = max 1 \<lceil>real_of_int n / real_of_int (PageSize resp)\<rceil>
         \<and> (n = 0 \<longrightarrow> TotalPages resp = 1)
         \<and> (n = 15 \<and> PageSize resp = 10 \<longrightarrow> TotalPages resp = 2)"
proof -
  let ?nf = "spec_normalized (filter_or_zero flt)"
  let ?ps = "F_PageSize ?nf"
  have ps: "1 \<le> ?ps" "?ps \<le> 100"
    using spec_normalized_PageSize [of "filter_or_zero flt"] by simp_all
  have p: "pages_of n ?ps = \<lceil>real_of_int n / real_of_int ?ps\<rceil>"
    using assms(4,5) ps by (rule pages_of_ceiling)
  have d: "pages_of n ?ps = (n + ?ps - 1) div ?ps"
    using assms(4,5) ps by (rule pages_of_div)
  have nonneg: "0 \<le> pages_of n ?ps"
    unfolding d using assms(4) ps by (intro pos_imp_zdiv_nonneg_iff [THEN iffD2]) simp_all
  have m: "(if pages_of n ?ps = 0 then 1 else pages_of n ?ps) = max 1 (pages_of n ?ps)"
    using nonneg by simp
  have z: "n = 0 \<Longrightarrow> pages_of n ?ps = 0"
    unfolding d using ps by simp
  have f: "n = 15 \<Longrightarrow> ?ps = 10 \<Longrightarrow> pages_of n ?ps = 2"
    unfolding d by simp
  from ListTasks_not_hit [OF assms(1,2)] obtain s' where
    "ListTasks flt s =
       (Inr \<lparr>Tasks = tasks, Total = n, Page = F_Page ?nf, PageSize = ?ps,
              TotalPages = (if pages_of n ?ps = 0 then 1 else pages_of n ?ps)\<rparr>,
        map_option spec_normalized flt, s')"
    using assms(3) by (auto simp: Let_def)
  then show ?thesis
    using m p z f by auto
qed

theorem C6_cache_miss_total_pages_witness:
  "map_sum id Total (fst (ListTasks example_first_page example_service)) = Inr 15
   \<and> map_sum id TotalPages (fst (ListTasks example_first_page example_service)) = Inr 2
   \<and> map_sum id PageSize (fst (ListTasks example_first_page example_service)) = Inr 10"
proof -
  let ?nf = "spec_normalized (filter_or_zero example_first_page)"
  let ?xs = "map example_task (rev [5..<15])"
  have a: "status_ok (filter_or_zero example_first_page)"
    by code_simp
  have b: "\<not> list_cache_hit example_service ?nf"
    by code_simp
  have c: "fst (GetAll (repo example_service) ?nf (repo_state example_service)) = Inr (Some ?xs, 15)"
    by code_simp
  have p: "F_PageSize ?nf = 10"
    by code_simp
  from C6_cache_miss_total_pages [OF a b c] show ?thesis
    by (auto simp: p)
qed

section \<open>An empty page in the cache\<close>

lemma next_fault_Nil: "next_fault [] = (None, [])"
  by (simp add: next_fault_def)

lemma redis_faults_same: "redis_faults c = [] \<Longrightarrow> c\<lparr>redis_faults := []\<rparr> = c"
  by (cases c) simp

lemma RedisCache_GetTaskList_absent:
  assumes "redis_faults c = []" and "map_of (kv c) key = None"
  shows "RedisCache_GetTaskList key c = ((None, None), c)"
  using assms
  by (simp add: RedisCache_GetTaskList_def client_Get_def next_fault_Nil redis_faults_same)

lemma RedisCache_GetTaskList_present:
  assumes "redis_faults c = []" and "map_of (kv c) key = Some (JsonTasks xs)"
  shows "RedisCache_GetTaskList key c = ((Some xs, None), c)"
  using assms
  by (simp add: RedisCache_GetTaskList_def client_Get_def next_fault_Nil redis_faults_same
        json_Unmarshal_Tasks_def)

lemma RedisCache_SetTaskList_answered:
  assumes "redis_faults c = []"
  shows "RedisCache_SetTaskList key ts c
           = (None, c\<lparr>kv := (key, json_Marshal_Tasks ts) # filter (\<lambda>e. fst e \<noteq> key) (kv c)\<rparr>)"
  using assms
  by (simp add: RedisCache_SetTaskList_def client_Set_def next_fault_Nil redis_faults_same)

text \<open>
  Claim C10. When the cache holds an empty collection that is not nil under the derived
  key, \<open>ListTasks\<close> answers with a total of 0 and 0 pages. The floor of one page is
  applied on the path through the repository only: if the key is absent, Redis answers
  every command and the repository finds no matching task (an empty slice, total 0), the
  call answers with 1 page and caches the empty slice, and the same query asked again is
  a cache hit that answers with 0 pages.
\<close>

theorem C10_empty_cached_page_has_zero_pages:
  fixes s :: "'r TaskService"
  assumes "status_ok (filter_or_zero flt)"
    and "cache s = Some c"
  shows "(fst (RedisCache_GetTaskList
                 (GenerateCacheKey (Some (spec_normalized (filter_or_zero flt)))) c)
            = (Some [], None)
          \<longrightarrow> (\<exists>resp flt' s'.
                 ListTasks flt s = (Inr resp, flt', s')
               \<and> Tasks resp = Some [] \<and> Total resp = 0 \<and> TotalPages resp = 0))
       \<and> (redis_faults c = []
          \<and> map_of (kv c) (GenerateCacheKey (Some (spec_normalized (filter_or_zero flt)))) = None
          \<and> fst (GetAll (repo s) (spec_normalized (filter_or_zero flt)) (repo_state s))
              = Inr (Some [], 0)
          \<longrightarrow> (\<exists>resp1 flt1 s1 resp2 flt2 s2.
                 ListTasks flt s = (Inr resp1, flt1, s1)
               \<and> Total resp1 = 0 \<and> TotalPages resp1 = 1
               \<and> ListTasks flt s1 = (Inr resp2, flt2, s2)
               \<and> Tasks resp2 = Some [] \<and> Total resp2 = 0 \<and> TotalPages resp2 = 0
               \<and> new_calls s1 s2
                   = [cache_GetTaskList
                        (GenerateCacheKey (Some (spec_normalized (filter_or_zero flt))))]))"
proof (intro conjI impI)
  let ?nf = "spec_normalized (filter_or_zero flt)"
  let ?key = "GenerateCacheKey (Some ?nf)"
  have ps: "1 \<le> F_PageSize ?nf" "F_PageSize ?nf \<le> 100"
    using spec_normalized_PageSize [of "filter_or_zero flt"] by simp_all
  have z: "pages_of 0 (F_PageSize ?nf) = 0"
    using ps by (simp add: pages_of_div)
  {
    assume "fst (RedisCache_GetTaskList ?key c) = (Some [], None)"
    then obtain c' where l: "RedisCache_GetTaskList ?key c = ((Some [], None), c')"
      by (cases "RedisCache_GetTaskList ?key c") simp
    show "\<exists>resp flt' s'. ListTasks flt s = (Inr resp, flt', s')
            \<and> Tasks resp = Some [] \<and> Total resp = 0 \<and> TotalPages resp = 0"
      using z by (simp add: ListTasks_hit [OF assms l] Let_def)
  }
  {
    assume h: "redis_faults c = [] \<and> map_of (kv c) ?key = None
                \<and> fst (GetAll (repo s) ?nf (repo_state s)) = Inr (Some [], 0)"
    then obtain st where g: "GetAll (repo s) ?nf (repo_state s) = (Inr (Some [], 0), st)"
      by (cases "GetAll (repo s) ?nf (repo_state s)") simp
    have l1: "RedisCache_GetTaskList ?key c = ((None, None), c)"
      using h by (simp add: RedisCache_GetTaskList_absent)
    define c2 where "c2 = c\<lparr>kv := (?key, JsonTasks []) # filter (\<lambda>e. fst e \<noteq> ?key) (kv c)\<rparr>"
    have set: "RedisCache_SetTaskList ?key (Some []) c = (None, c2)"
      using h by (simp add: RedisCache_SetTaskList_answered json_Marshal_Tasks_def c2_def)
    define s1 where "s1 = s\<lparr>repo_state := st, cache := Some c2,
        calls := calls s @ [cache_GetTaskList ?key, repo_GetAll ?nf, cache_SetTaskList ?key (Some [])]\<rparr>"
    have first: "ListTasks flt s =
        (Inr \<lparr>Tasks = Some [], Total = 0, Page = F_Page ?nf, PageSize = F_PageSize ?nf,
               TotalPages = 1\<rparr>, map_option spec_normalized flt, s1)"
      using g set z by (simp add: ListTasks_miss [OF assms l1] Let_def s1_def)
    have c2: "cache s1 = Some c2"
      by (simp add: s1_def)
    have l2: "RedisCache_GetTaskList ?key c2 = ((Some [], None), c2)"
      using h by (intro RedisCache_GetTaskList_present) (simp_all add: c2_def)
    have second: "ListTasks flt s1 =
        (Inr \<lparr>Tasks = Some [], Total = 0, Page = F_Page ?nf, PageSize = F_PageSize ?nf,
               TotalPages = 0\<rparr>, map_option spec_normalized flt,
         s1\<lparr>cache := Some c2, calls := calls s1 @ [cache_GetTaskList ?key]\<rparr>)"
      using z by (simp add: ListTasks_hit [OF assms(1) c2 l2] Let_def)
    show "\<exists>resp1 flt1 s1 resp2 flt2 s2.
            ListTasks flt s = (Inr resp1, flt1, s1)
          \<and> Total resp1 = 0 \<and> TotalPages resp1 = 1
          \<and> ListTasks flt s1 = (Inr resp2, flt2, s2)
          \<and> Tasks resp2 = Some [] \<and> Total resp2 = 0 \<and> TotalPages resp2 = 0
          \<and> new_calls s1 s2 = [cache_GetTaskList ?key]"
      using first second by (simp add: new_calls_def)
  }
qed

theorem C10_empty_cached_page_has_zero_pages_witness:
  "map_sum id TotalPages (fst (ListTasks example_completed example_service)) = Inr 1
   \<and> map_sum id Total (fst (ListTasks example_completed example_service)) = Inr 0
   \<and> map_sum id TotalPages
        (fst (ListTasks example_completed
                (snd (snd (ListTasks example_completed example_service))))) = Inr 0
   \<and> map_sum id Total
        (fst (ListTasks example_completed
                (snd (snd (ListTasks example_completed example_service))))) = Inr 0"
proof -
  let ?nf = "spec_normalized (filter_or_zero example_completed)"
  let ?c = "\<lparr>kv = [], redis_faults = []\<rparr>"
  have a: "status_ok (filter_or_zero example_completed)"
    by code_simp
  have b: "cache example_service = Some ?c"
    by (simp add: example_service_def)
  have h: "redis_faults ?c = []
         \<and> map_of (kv ?c) (GenerateCacheKey (Some ?nf)) = None
         \<and> fst (GetAll (repo example_service) ?nf (repo_state example_service)) = Inr (Some [], 0)"
    by code_simp
  from C10_empty_cached_page_has_zero_pages [OF a b] h show ?thesis
    by auto
qed

section \<open>Cache keys\<close>

lemma digits_small: "n < 10 \<Longrightarrow> digits n = [char_of (48 + n)]"
  by (simp add: digits.simps [of n])

lemma digits_large: "\<not> n < 10 \<Longrightarrow> digits n = digits (n div 10) @ [char_of (48 + n mod 10)]"
  by (simp add: digits.simps [of n])

lemma digit_char_inj:
  assumes "m < 10" "n < 10" "(char_of (48 + m) :: char) = char_of (48 + n)"
  shows "m = (n::nat)"
  using assms by simp

lemma digit_char_not:
  assumes "(d::nat) < 10" and "(of_char c :: nat) < 48 \<or> 57 < (of_char c :: nat)"
  shows "char_of (48 + d) \<noteq> c"
proof
  assume "char_of (48 + d) = c"
  then have "(of_char c :: nat) = of_char (char_of (48 + d) :: char)" by simp
  also have "\<dots> = 48 + d" using assms(1) by simp
  finally show False using assms by simp
qed

lemma digits_last:
  "\<exists>ds d. digits n = ds @ [char_of (48 + d)] \<and> (d::nat) < 10"
proof (cases "n < 10")
  case True
  then have "digits n = [] @ [char_of (48 + n)]" by (simp add: digits_small)
  with True show ?thesis by blast
next
  case False
  then have "digits n = digits (n div 10) @ [char_of (48 + n mod 10)]" by (rule digits_large)
  moreover have "n mod 10 < 10" by simp
  ultimately show ?thesis by blast
qed

lemma digits_length_ge2:
  assumes "\<not> n < 10"
  shows "2 \<le> length (digits n)"
proof -
  have e: "digits n = digits (n div 10) @ [char_of (48 + n mod 10)]"
    using assms by (rule digits_large)
  obtain ds and d :: nat where "digits (n div 10) = ds @ [char_of (48 + d)]"
    using digits_last by blast
  with e show ?thesis by simp
qed

lemma digits_inj: "digits m = digits n \<Longrightarrow> m = n"
proof (induction m arbitrary: n rule: digits.induct)
  case (1 m)
  show ?case
  proof (cases "m < 10")
    case m: True
    show ?thesis
    proof (cases "n < 10")
      case True
      with m "1.prems" show ?thesis by (simp add: digits_small)
    next
      case False
      from m have "length (digits m) = 1"
        by (simp add: digits_small)
      with "1.prems" have "length (digits n) = 1"
        by simp
      with digits_length_ge2 [OF False] show ?thesis by simp
    qed
  next
    case m: False
    show ?thesis
    proof (cases "n < 10")
      case True
      from "1.prems" True have "length (digits m) = 1"
        by (simp add: digits_small)
      with digits_length_ge2 [OF m] show ?thesis by simp
    next
      case False
      from m False "1.prems"
      have "digits (m div 10) @ [char_of (48 + m mod 10)]
              = digits (n div 10) @ [char_of (48 + n mod 10)]"
        by (simp add: digits_large)
      then have a: "digits (m div 10) = digits (n div 10)"
        and b: "(char_of (48 + m mod 10) :: char) = char_of (48 + n mod 10)"
        by simp_all
      from "1.IH" [OF m a] have q: "m div 10 = n div 10" .
      from b have r: "m mod 10 = n mod 10"
        by (intro digit_char_inj) simp_all
      from q r show ?thesis
        by (metis div_mult_mod_eq)
    qed
  qed
qed

lemma digits_no_minus: "CHR ''-'' \<notin> set (digits n)"
proof (induction n rule: digits.induct)
  case (1 n)
  show ?case
  proof (cases "n < 10")
    case True
    then have "char_of (48 + n) \<noteq> CHR ''-''"
      by (intro digit_char_not) simp_all
    with True show ?thesis by (simp add: digits_small)
  next
    case False
    have "char_of (48 + n mod 10) \<noteq> CHR ''-''"
      by (intro digit_char_not) simp_all
    with False "1.IH" show ?thesis by (simp add: digits_large)
  qed
qed

lemma fmt_d_inj: "fmt_d i = fmt_d j \<Longrightarrow> i = j"
proof -
  assume e: "fmt_d i = fmt_d j"
  have neg_pos: "CHR ''-'' # digits a \<noteq> digits b" for a b
  proof
    assume "CHR ''-'' # digits a = digits b"
    then have "CHR ''-'' \<in> set (digits b)" by (metis list.set_intros(1))
    with digits_no_minus show False by blast
  qed
  show ?thesis
  proof (cases "i < 0")
    case i: True
    show ?thesis
    proof (cases "j < 0")
      case True
      with i e have "digits (nat (- i)) = digits (nat (- j))" by (simp add: fmt_d_def)
      then have "nat (- i) = nat (- j)" by (rule digits_inj)
      with i True show ?thesis by simp
    next
      case False
      with i e neg_pos show ?thesis by (simp add: fmt_d_def)
    qed
  next
    case i: False
    show ?thesis
    proof (cases "j < 0")
      case True
      with i e neg_pos [of "nat (- j)" "nat i"] show ?thesis by (simp add: fmt_d_def)
    next
      case False
      with i e have "digits (nat i) = digits (nat j)" by (simp add: fmt_d_def)
      then have "nat i = nat j" by (rule digits_inj)
      with i False show ?thesis by simp
    qed
  qed
qed

lemma fmt_d_last: "\<exists>ds d. fmt_d i = ds @ [char_of (48 + d)] \<and> (d::nat) < 10"
proof (cases "i < 0")
  case True
  obtain ds and d :: nat where "digits (nat (- i)) = ds @ [char_of (48 + d)]" "d < 10"
    using digits_last by blast
  with True have "fmt_d i = (CHR ''-'' # ds) @ [char_of (48 + d)] \<and> d < 10"
    by (simp add: fmt_d_def)
  then show ?thesis by blast
next
  case False
  obtain ds and d :: nat where "digits (nat i) = ds @ [char_of (48 + d)]" "d < 10"
    using digits_last by blast
  with False have "fmt_d i = ds @ [char_of (48 + d)] \<and> d < 10"
    by (simp add: fmt_d_def)
  then show ?thesis by blast
qed

lemma GenerateCacheKey_Some:
  "GenerateCacheKey (Some f) =
     ''tasks:list''
     @ (case F_Status f of None \<Rightarrow> [] | Some s \<Rightarrow> '':status:'' @ s)
     @ (case F_Assignee f of None \<Rightarrow> [] | Some a \<Rightarrow> '':assignee:'' @ a)
     @ '':page:'' @ fmt_d (F_Page f) @ '':size:'' @ fmt_d (F_PageSize f)"
  by (simp add: GenerateCacheKey_def taskListKey_def Let_def split: option.splits)

lemma tagged_inj:
  assumes "(case x of None \<Rightarrow> [] | Some s \<Rightarrow> tag @ s)
             = (case y of None \<Rightarrow> [] | Some s \<Rightarrow> tag @ s)"
    and "tag \<noteq> []"
  shows "x = y"
  using assms by (cases x; cases y) simp_all

text \<open>
  Claim C7. The key of a filter depends on its four fields only, so filters that agree
  on them get the same key; two filters that differ in exactly one of status, assignee,
  page and page size get different keys; the nil filter gets the key
  \<open>tasks:list:all\<close>, which is the key of no other filter.
\<close>

theorem C7_GenerateCacheKey_separates_single_field_changes:
  fixes f g :: TaskFilter
  shows "(F_Status f = F_Status g \<and> F_Assignee f = F_Assignee g
            \<and> F_Page f = F_Page g \<and> F_PageSize f = F_PageSize g
          \<longrightarrow> GenerateCacheKey (Some f) = GenerateCacheKey (Some g))
       \<and> (F_Status f \<noteq> F_Status g \<and> F_Assignee f = F_Assignee g
            \<and> F_Page f = F_Page g \<and> F_PageSize f = F_PageSize g
          \<longrightarrow> GenerateCacheKey (Some f) \<noteq> GenerateCacheKey (Some g))
       \<and> (F_Status f = F_Status g \<and> F_Assignee f \<noteq> F_Assignee g
            \<and> F_Page f = F_Page g \<and> F_PageSize f = F_PageSize g
          \<longrightarrow> GenerateCacheKey (Some f) \<noteq> GenerateCacheKey (Some g))
       \<and> (F_Status f = F_Status g \<and> F_Assignee f = F_Assignee g
            \<and> F_Page f \<noteq> F_Page g \<and> F_PageSize f = F_PageSize g
          \<longrightarrow> GenerateCacheKey (Some f) \<noteq> GenerateCacheKey (Some g))
       \<and> (F_Status f = F_Status g \<and> F_Assignee f = F_Assignee g
            \<and> F_Page f = F_Page g \<and> F_PageSize f \<noteq> F_PageSize g
          \<longrightarrow> GenerateCacheKey (Some f) \<noteq> GenerateCacheKey (Some g))
       \<and> GenerateCacheKey None = ''tasks:list:all''
       \<and> GenerateCacheKey (Some f) \<noteq> GenerateCacheKey None"
proof (intro conjI impI)
  assume "F_Status f = F_Status g \<and> F_Assignee f = F_Assignee g
            \<and> F_Page f = F_Page g \<and> F_PageSize f = F_PageSize g"
  then show "GenerateCacheKey (Some f) = GenerateCacheKey (Some g)"
    by (simp add: GenerateCacheKey_Some)
next
  assume h: "F_Status f \<noteq> F_Status g \<and> F_Assignee f = F_Assignee g
            \<and> F_Page f = F_Page g \<and> F_PageSize f = F_PageSize g"
  show "GenerateCacheKey (Some f) \<noteq> GenerateCacheKey (Some g)"
  proof
    assume "GenerateCacheKey (Some f) = GenerateCacheKey (Some g)"
    with h have "(case F_Status f of None \<Rightarrow> [] | Some s \<Rightarrow> '':status:'' @ s)
                   = (case F_Status g of None \<Rightarrow> [] | Some s \<Rightarrow> '':status:'' @ s)"
      by (simp add: GenerateCacheKey_Some)
    then have "F_Status f = F_Status g" by (rule tagged_inj) simp
    with h show False by simp
  qed
next
  assume h: "F_Status f = F_Status g \<and> F_Assignee f \<noteq> F_Assignee g
            \<and> F_Page f = F_Page g \<and> F_PageSize f = F_PageSize g"
  show "GenerateCacheKey (Some f) \<noteq> GenerateCacheKey (Some g)"
  proof
    assume "GenerateCacheKey (Some f) = GenerateCacheKey (Some g)"
    with h have "(case F_Assignee f of None \<Rightarrow> [] | Some s \<Rightarrow> '':assignee:'' @ s)
                   = (case F_Assignee g of None \<Rightarrow> [] | Some s \<Rightarrow> '':assignee:'' @ s)"
      by (simp add: GenerateCacheKey_Some)
    then have "F_Assignee f = F_Assignee g" by (rule tagged_inj) simp
    with h show False by simp
  qed
next
  assume h: "F_Status f = F_Status g \<and> F_Assignee f = F_Assignee g
            \<and> F_Page f \<noteq> F_Page g \<and> F_PageSize f = F_PageSize g"
  show "GenerateCacheKey (Some f) \<noteq> GenerateCacheKey (Some g)"
  proof
    assume "GenerateCacheKey (Some f) = GenerateCacheKey (Some g)"
    with h have "fmt_d (F_Page f) = fmt_d (F_Page g)"
      by (simp add: GenerateCacheKey_Some)
    then have "F_Page f = F_Page g" by (rule fmt_d_inj)
    with h show False by simp
  qed
next
  assume h: "F_Status f = F_Status g \<and> F_Assignee f = F_Assignee g
            \<and> F_Page f = F_Page g \<and> F_PageSize f \<noteq> F_PageSize g"
  show "GenerateCacheKey (Some f) \<noteq> GenerateCacheKey (Some g)"
  proof
    assume "GenerateCacheKey (Some f) = GenerateCacheKey (Some g)"
    with h have "fmt_d (F_PageSize f) = fmt_d (F_PageSize g)"
      by (simp add: GenerateCacheKey_Some)
    then have "F_PageSize f = F_PageSize g" by (rule fmt_d_inj)
    with h show False by simp
  qed
next
  show "GenerateCacheKey None = ''tasks:list:all''"
    by (simp add: GenerateCacheKey_def taskListKey_def)
next
  show "GenerateCacheKey (Some f) \<noteq> GenerateCacheKey None"
  proof
    assume e: "GenerateCacheKey (Some f) = GenerateCacheKey None"
    obtain ds and d :: nat where l: "fmt_d (F_PageSize f) = ds @ [char_of (48 + d)]" and d: "d < 10"
      using fmt_d_last by blast
    have "last (GenerateCacheKey (Some f)) = char_of (48 + d)"
      by (simp add: GenerateCacheKey_Some l)
    moreover have "last (GenerateCacheKey None) = CHR ''l''"
      by (simp add: GenerateCacheKey_def taskListKey_def)
    moreover have "char_of (48 + d) \<noteq> CHR ''l''"
      using d by (intro digit_char_not) simp_all
    ultimately show False using e by simp
  qed
qed

theorem C7_GenerateCacheKey_separates_single_field_changes_witness:
  "GenerateCacheKey (Some \<lparr>F_Status = None, F_Assignee = None, F_Page = 1, F_PageSize = 10\<rparr>)
     = ''tasks:list:page:1:size:10''
   \<and> GenerateCacheKey (Some \<lparr>F_Status = None, F_Assignee = None, F_Page = 2, F_PageSize = 10\<rparr>)
     \<noteq> GenerateCacheKey (Some \<lparr>F_Status = None, F_Assignee = None, F_Page = 1, F_PageSize = 10\<rparr>)
   \<and> GenerateCacheKey (Some \<lparr>F_Status = Some TaskStatusPending, F_Assignee = None, F_Page = 1, F_PageSize = 10\<rparr>)
     \<noteq> GenerateCacheKey (Some \<lparr>F_Status = None, F_Assignee = None, F_Page = 1, F_PageSize = 10\<rparr>)
   \<and> GenerateCacheKey (Some \<lparr>F_Status = None, F_Assignee = None, F_Page = 1, F_PageSize = 10\<rparr>)
     \<noteq> GenerateCacheKey None"
proof -
  have k: "GenerateCacheKey (Some \<lparr>F_Status = None, F_Assignee = None, F_Page = 1, F_PageSize = 10\<rparr>)
             = ''tasks:list:page:1:size:10''"
    by code_simp
  from k
    C7_GenerateCacheKey_separates_single_field_changes
      [of "\<lparr>F_Status = None, F_Assignee = None, F_Page = 2, F_PageSize = 10\<rparr>"
          "\<lparr>F_Status = None, F_Assignee = None, F_Page = 1, F_PageSize = 10\<rparr>"]
    C7_GenerateCacheKey_separates_single_field_changes
      [of "\<lparr>F_Status = Some TaskStatusPending, F_Assignee = None, F_Page = 1, F_PageSize = 10\<rparr>"
          "\<lparr>F_Status = None, F_Assignee = None, F_Page = 1, F_PageSize = 10\<rparr>"]
  show ?thesis
    by simp
qed

section \<open>Reads when the cache fails\<close>

lemma GetTask_hit:
  assumes "cache s = Some c"
    and "RedisCache_GetTask tid c = ((Some t, None), c')"
  shows "GetTask tid s = (Inr t, s\<lparr>cache := Some c', calls := calls s @ [cache_GetTask tid]\<rparr>)"
  using assms
  by (simp add: GetTask_def s_cache_GetTask_def s_cache_def)

lemma GetTask_miss:
  assumes "cache s = Some c"
    and "RedisCache_GetTask tid c = ((ct, err), c')"
    and "err \<noteq> None \<or> ct = None"
  shows "GetTask tid s =
           (case GetByID (repo s) tid (repo_state s) of
              (Inl e, st) \<Rightarrow>
                (Inl e, s\<lparr>repo_state := st, cache := Some c',
                          calls := calls s @ [cache_GetTask tid, repo_GetByID tid]\<rparr>)
            | (Inr task, st) \<Rightarrow>
                (Inr task,
                 s\<lparr>repo_state := st, cache := Some (snd (RedisCache_SetTask task c')),
                   calls := calls s @ [cache_GetTask tid, repo_GetByID tid, cache_SetTask task]\<rparr>))"
proof -
  obtain r st where g: "GetByID (repo s) tid (repo_state s) = (r, st)"
    by (cases "GetByID (repo s) tid (repo_state s)")
  have miss: "(if err = None \<and> ct \<noteq> None then (ct, x) else (None, x)) = (None, x)"
    for x :: "'a TaskService"
    using assms(3) by auto
  show ?thesis
  proof (cases r)
    case (Inl e)
    with assms(1,2) miss g show ?thesis
      by (simp add: GetTask_def s_cache_GetTask_def s_cache_def s_repo_GetByID_def)
  next
    case (Inr task)
    obtain e2 c2 where st: "RedisCache_SetTask task c' = (e2, c2)"
      by (cases "RedisCache_SetTask task c'")
    from Inr assms(1,2) miss g st show ?thesis
      by (simp add: GetTask_def s_cache_GetTask_def s_cache_SetTask_def s_cache_def
            s_repo_GetByID_def)
  qed
qed

lemma GetTask_nocache:
  assumes "cache s = None"
  shows "GetTask tid s =
           (case GetByID (repo s) tid (repo_state s) of
              (Inl e, st) \<Rightarrow>
                (Inl e, s\<lparr>repo_state := st, calls := calls s @ [repo_GetByID tid]\<rparr>)
            | (Inr task, st) \<Rightarrow>
                (Inr task, s\<lparr>repo_state := st, calls := calls s @ [repo_GetByID tid]\<rparr>))"
proof -
  obtain r st where g: "GetByID (repo s) tid (repo_state s) = (r, st)"
    by (cases "GetByID (repo s) tid (repo_state s)")
  from assms g show ?thesis
    by (cases r) (simp_all add: GetTask_def s_repo_GetByID_def)
qed

text \<open>
  What \<open>GetTask\<close> returns when the read is not served from the cache: the outcome of
  the repository's \<open>GetByID\<close>, as it is.
\<close>

lemma GetTask_not_hit:
  fixes s :: "'r TaskService"
  assumes "\<not> task_cache_hit s tid"
  shows "fst (GetTask tid s) = fst (GetByID (repo s) tid (repo_state s))"
proof -
  obtain r st where g: "GetByID (repo s) tid (repo_state s) = (r, st)"
    by (cases "GetByID (repo s) tid (repo_state s)")
  show ?thesis
  proof (cases "cache s")
    case None
    show ?thesis
      using g by (cases r) (simp_all add: GetTask_nocache [OF None])
  next
    case (Some c)
    obtain ct err c' where l: "RedisCache_GetTask tid c = ((ct, err), c')"
      by (cases "RedisCache_GetTask tid c") auto
    with assms Some have m: "err \<noteq> None \<or> ct = None"
      by (auto simp: task_cache_hit_def)
    show ?thesis
      using g by (cases r) (simp_all add: GetTask_miss [OF Some l m])
  qed
qed

text \<open>
  Claim C4. In \<open>GetTask\<close> and \<open>ListTasks\<close> a lookup that the cache answers with an
  error is handled as a miss: whenever the read is not served from the cache (there is
  no cache, the lookup failed, or it found nothing), the value returned is the outcome of
  the repository call and nothing else, so it is the same in the three cases and does not
  depend on whether the later write to the cache succeeded. A read served from the cache
  succeeds. Hence no error of the cache is ever returned.
\<close>

theorem C4_cache_errors_never_returned:
  fixes s :: "'r TaskService"
  shows "(task_cache_hit s tid \<longrightarrow> (\<exists>t. fst (GetTask tid s) = Inr t))
       \<and> (\<not> task_cache_hit s tid
          \<longrightarrow> fst (GetTask tid s) = fst (GetByID (repo s) tid (repo_state s)))
       \<and> (status_ok (filter_or_zero flt)
            \<and> list_cache_hit s (spec_normalized (filter_or_zero flt))
          \<longrightarrow> (\<exists>resp. fst (ListTasks flt s) = Inr resp))
       \<and> (status_ok (filter_or_zero flt)
            \<and> \<not> list_cache_hit s (spec_normalized (filter_or_zero flt))
          \<longrightarrow> fst (ListTasks flt s) =
                (let f = spec_normalized (filter_or_zero flt) in
                 case fst (GetAll (repo s) f (repo_state s)) of
                   Inl e \<Rightarrow> Inl (fmt_Errorf ''failed to list tasks'' e)
                 | Inr (tasks, n) \<Rightarrow>
                     Inr \<lparr>Tasks = tasks, Total = n, Page = F_Page f, PageSize = F_PageSize f,
                           TotalPages = (if pages_of n (F_PageSize f) = 0 then 1
                                         else pages_of n (F_PageSize f))\<rparr>))"
proof (intro conjI impI)
  assume h: "task_cache_hit s tid"
  then obtain c where c: "cache s = Some c"
    by (cases "cache s") (simp_all add: task_cache_hit_def)
  obtain ct err c' where l: "RedisCache_GetTask tid c = ((ct, err), c')"
    by (cases "RedisCache_GetTask tid c") auto
  with h c obtain t where "ct = Some t" "err = None"
    by (auto simp: task_cache_hit_def)
  with l have "RedisCache_GetTask tid c = ((Some t, None), c')" by simp
  from GetTask_hit [OF c this] show "\<exists>t. fst (GetTask tid s) = Inr t" by simp
next
  assume "\<not> task_cache_hit s tid"
  then show "fst (GetTask tid s) = fst (GetByID (repo s) tid (repo_state s))"
    by (rule GetTask_not_hit)
next
  let ?nf = "spec_normalized (filter_or_zero flt)"
  assume h: "status_ok (filter_or_zero flt) \<and> list_cache_hit s ?nf"
  then obtain c where c: "cache s = Some c"
    by (cases "cache s") (simp_all add: list_cache_hit_def)
  obtain ts err c' where l: "RedisCache_GetTaskList (GenerateCacheKey (Some ?nf)) c = ((ts, err), c')"
    by (cases "RedisCache_GetTaskList (GenerateCacheKey (Some ?nf)) c") auto
  with h c obtain xs where "ts = Some xs" "err = None"
    by (auto simp: list_cache_hit_def)
  with l have l': "RedisCache_GetTaskList (GenerateCacheKey (Some ?nf)) c = ((Some xs, None), c')"
    by simp
  from h have ok: "status_ok (filter_or_zero flt)" by simp
  show "\<exists>resp. fst (ListTasks flt s) = Inr resp"
    by (simp add: ListTasks_hit [OF ok c l'] Let_def)
next
  let ?nf = "spec_normalized (filter_or_zero flt)"
  assume h: "status_ok (filter_or_zero flt) \<and> \<not> list_cache_hit s ?nf"
  then have ok: "status_ok (filter_or_zero flt)" and m: "\<not> list_cache_hit s ?nf"
    by simp_all
  from ListTasks_not_hit [OF ok m]
  show "fst (ListTasks flt s) =
          (let f = ?nf in
           case fst (GetAll (repo s) f (repo_state s)) of
             Inl e \<Rightarrow> Inl (fmt_Errorf ''failed to list tasks'' e)
           | Inr (tasks, n) \<Rightarrow>
               Inr \<lparr>Tasks = tasks, Total = n, Page = F_Page f, PageSize = F_PageSize f,
                     TotalPages = (if pages_of n (F_PageSize f) = 0 then 1
                                   else pages_of n (F_PageSize f))\<rparr>)"
    by auto
qed

theorem C4_cache_errors_never_returned_witness:
  "fst (RedisCache_GetTask (example_uuids 3) (the (cache example_service_redis_down)))
     = (None, Some (fmt_Errorf ''failed to get from cache'' (driver_error ''connection refused'')))
   \<and> fst (GetTask (example_uuids 3) example_service_redis_down) = Inr (example_task 3)
   \<and> fst (RedisCache_GetTaskList ''tasks:list:page:1:size:10'' (the (cache example_service_redis_down)))
     = (None, Some (fmt_Errorf ''failed to get list from cache'' (driver_error ''connection refused'')))
   \<and> map_sum id Total (fst (ListTasks example_first_page example_service_redis_down)) = Inr 15
   \<and> new_calls example_service_redis_down (snd (GetTask (example_uuids 3) example_service_redis_down))
       = [cache_GetTask (example_uuids 3), repo_GetByID (example_uuids 3),
          cache_SetTask (example_task 3)]
   \<and> kv (the (cache (snd (GetTask (example_uuids 3) example_service_redis_down)))) = []"
proof -
  let ?nf = "spec_normalized (filter_or_zero example_first_page)"
  have a: "\<not> task_cache_hit example_service_redis_down (example_uuids 3)"
    by code_simp
  have b: "fst (GetByID (repo example_service_redis_down) (example_uuids 3)
                  (repo_state example_service_redis_down)) = Inr (example_task 3)"
    by code_simp
  have c: "status_ok (filter_or_zero example_first_page)
           \<and> \<not> list_cache_hit example_service_redis_down ?nf"
    by code_simp
  have d: "fst (GetAll (repo example_service_redis_down) ?nf (repo_state example_service_redis_down))
             = Inr (Some (map example_task (rev [5..<15])), 15)"
    by code_simp
  have e: "fst (RedisCache_GetTask (example_uuids 3) (the (cache example_service_redis_down)))
     = (None, Some (fmt_Errorf ''failed to get from cache'' (driver_error ''connection refused'')))"
    by code_simp
  have f: "fst (RedisCache_GetTaskList ''tasks:list:page:1:size:10'' (the (cache example_service_redis_down)))
     = (None, Some (fmt_Errorf ''failed to get list from cache'' (driver_error ''connection refused'')))"
    by code_simp
  have g: "new_calls example_service_redis_down
              (snd (GetTask (example_uuids 3) example_service_redis_down))
       = [cache_GetTask (example_uuids 3), repo_GetByID (example_uuids 3),
          cache_SetTask (example_task 3)]
   \<and> kv (the (cache (snd (GetTask (example_uuids 3) example_service_redis_down)))) = []"
    by code_simp
  from C4_cache_errors_never_returned
         [of example_service_redis_down "example_uuids 3" example_first_page] a b c d e f g
  show ?thesis
    by (simp add: Let_def)
qed

section \<open>The mutating methods, case by case\<close>

lemma CreateTask_refused:
  "Req_Title req = [] \<Longrightarrow> CreateTask req s = (Inl (errors_New ''title is required''), s)"
  "Req_Title req \<noteq> [] \<Longrightarrow> Req_Status req \<noteq> [] \<Longrightarrow> \<not> IsValidStatus (Req_Status req)
     \<Longrightarrow> CreateTask req s = (Inl (errors_New ''invalid status''), s)"
  by (simp_all add: CreateTask_def)

lemma CreateTask_accepted:
  assumes "create_request_ok req"
  shows "CreateTask req s =
           (let task = created_task req s in
            case Create (repo s) task (repo_state s) of
              (Some e, st) \<Rightarrow>
                (Inl (fmt_Errorf ''failed to create task'' e),
                 s\<lparr>repo_state := st, uuid_next := Suc (uuid_next s),
                   calls := calls s @ [repo_Create task]\<rparr>)
            | (None, st) \<Rightarrow>
                (Inr task,
                 case cache s of
                   None \<Rightarrow>
                     s\<lparr>repo_state := st, uuid_next := Suc (uuid_next s),
                       calls := calls s @ [repo_Create task]\<rparr>
                 | Some c \<Rightarrow>
                     s\<lparr>repo_state := st, cache := Some (snd (RedisCache_InvalidateTaskList c)),
                       uuid_next := Suc (uuid_next s),
                       calls := calls s @ [repo_Create task, cache_InvalidateTaskList]\<rparr>))"
proof -
  obtain r st where g: "Create (repo s) (created_task req s) (repo_state s) = (r, st)"
    by (cases "Create (repo s) (created_task req s) (repo_state s)")
  have ok: "Req_Title req \<noteq> []" "\<not> (Req_Status req \<noteq> [] \<and> \<not> IsValidStatus (Req_Status req))"
    using assms by (auto simp: create_request_ok_def)
  show ?thesis
  proof (cases r)
    case None
    show ?thesis
    proof (cases "cache s")
      case n: None
      from ok g None n show ?thesis
        by (simp add: CreateTask_def uuid_New_def Let_def created_task_def s_repo_Create_def)
    next
      case (Some c)
      obtain e2 c2 where i: "RedisCache_InvalidateTaskList c = (e2, c2)"
        by (cases "RedisCache_InvalidateTaskList c")
      from ok g None Some i show ?thesis
        by (simp add: CreateTask_def uuid_New_def Let_def created_task_def s_repo_Create_def
              s_cache_InvalidateTaskList_def s_cache_def)
    qed
  next
    case (Some e)
    from ok g Some show ?thesis
      by (simp add: CreateTask_def uuid_New_def Let_def created_task_def s_repo_Create_def)
  qed
qed

lemma evictions:
  assumes "cache s = Some c"
  shows "snd (s_cache_InvalidateTaskList (snd (s_cache_DeleteTask tid s)))
           = s\<lparr>cache := Some (evicted tid c),
               calls := calls s @ [cache_DeleteTask tid, cache_InvalidateTaskList]\<rparr>"
proof -
  obtain e1 c1 where d: "RedisCache_DeleteTask tid c = (e1, c1)"
    by (cases "RedisCache_DeleteTask tid c")
  obtain e2 c2 where i: "RedisCache_InvalidateTaskList c1 = (e2, c2)"
    by (cases "RedisCache_InvalidateTaskList c1")
  from assms d i show ?thesis
    by (simp add: s_cache_InvalidateTaskList_def s_cache_DeleteTask_def s_cache_def evicted_def)
qed

lemma DeleteTask_cases:
  "DeleteTask tid s =
     (case Delete (repo s) tid (repo_state s) of
        (Some e, st) \<Rightarrow>
          (Some e, s\<lparr>repo_state := st, calls := calls s @ [repo_Delete tid]\<rparr>)
      | (None, st) \<Rightarrow>
          (None,
           case cache s of
             None \<Rightarrow> s\<lparr>repo_state := st, calls := calls s @ [repo_Delete tid]\<rparr>
           | Some c \<Rightarrow>
               s\<lparr>repo_state := st, cache := Some (evicted tid c),
                 calls := calls s @ [repo_Delete tid, cache_DeleteTask tid,
                                     cache_InvalidateTaskList]\<rparr>))"
proof -
  obtain r st where g: "Delete (repo s) tid (repo_state s) = (r, st)"
    by (cases "Delete (repo s) tid (repo_state s)")
  show ?thesis
  proof (cases r)
    case None
    show ?thesis
    proof (cases "cache s")
      case n: None
      from g None n show ?thesis
        by (simp add: DeleteTask_def s_repo_Delete_def)
    next
      case (Some c)
      let ?s1 = "s\<lparr>repo_state := st, calls := calls s @ [repo_Delete tid]\<rparr>"
      have c1: "cache ?s1 = Some c" using Some by simp
      from g None Some show ?thesis
        by (simp add: DeleteTask_def s_repo_Delete_def evictions [OF c1])
    qed
  next
    case (Some e)
    from g Some show ?thesis
      by (simp add: DeleteTask_def s_repo_Delete_def)
  qed
qed

lemma UpdateTask_cases:
  "UpdateTask tid req s =
     (case GetByID (repo s) tid (repo_state s) of
        (Inl e, st) \<Rightarrow>
          (Inl e, s\<lparr>repo_state := st, calls := calls s @ [repo_GetByID tid]\<rparr>)
      | (Inr stored, st) \<Rightarrow>
          (if \<not> update_status_ok req
           then (Inl (errors_New ''invalid status''),
                 s\<lparr>repo_state := st, calls := calls s @ [repo_GetByID tid]\<rparr>)
           else
             (let task = apply_update req (clock s) stored in
              case Update (repo s) task st of
                (Some e, st') \<Rightarrow>
                  (Inl (fmt_Errorf ''failed to update task'' e),
                   s\<lparr>repo_state := st',
                     calls := calls s @ [repo_GetByID tid, repo_Update task]\<rparr>)
              | (None, st') \<Rightarrow>
                  (Inr task,
                   case cache s of
                     None \<Rightarrow>
                       s\<lparr>repo_state := st',
                         calls := calls s @ [repo_GetByID tid, repo_Update task]\<rparr>
                   | Some c \<Rightarrow>
                       s\<lparr>repo_state := st', cache := Some (evicted tid c),
                         calls := calls s @ [repo_GetByID tid, repo_Update task,
                                             cache_DeleteTask tid, cache_InvalidateTaskList]\<rparr>))))"
proof -
  obtain r st where g: "GetByID (repo s) tid (repo_state s) = (r, st)"
    by (cases "GetByID (repo s) tid (repo_state s)")
  show ?thesis
  proof (cases r)
    case (Inl e)
    with g show ?thesis
      by (simp add: UpdateTask_def s_repo_GetByID_def)
  next
    case (Inr stored)
    show ?thesis
    proof (cases "update_status_ok req")
      case False
      with g Inr show ?thesis
        by (auto simp: UpdateTask_def s_repo_GetByID_def update_status_ok_def Let_def
              split: option.splits)
    next
      case ok: True
      let ?task = "apply_update req (clock s) stored"
      let ?s1 = "s\<lparr>repo_state := st, calls := calls s @ [repo_GetByID tid]\<rparr>"
      have checked:
        "(case Upd_Status req of
            None \<Rightarrow> Inr t
          | Some st \<Rightarrow> (if \<not> IsValidStatus st then Inl (errors_New ''invalid status'')
                       else Inr (t\<lparr>Status := st\<rparr>)))
         = Inr (t\<lparr>Status := (case Upd_Status req of None \<Rightarrow> Status t | Some st \<Rightarrow> st)\<rparr>)"
        for t :: Task
        using ok by (cases "Upd_Status req") (simp_all add: update_status_ok_def)
      have task: "(case Upd_Assignee req of
                     None \<Rightarrow> t | Some a \<Rightarrow> t\<lparr>Assignee := a\<rparr>)\<lparr>UpdatedAt := clock s\<rparr> = ?task"
        if "t = (case Upd_Description req of
                   None \<Rightarrow> (case Upd_Title req of None \<Rightarrow> stored | Some x \<Rightarrow> stored\<lparr>Title := x\<rparr>)
                 | Some d \<Rightarrow> (case Upd_Title req of None \<Rightarrow> stored | Some x \<Rightarrow> stored\<lparr>Title := x\<rparr>)
                               \<lparr>Description := d\<rparr>)
                 \<lparr>Status := (case Upd_Status req of
                               None \<Rightarrow> Status (case Upd_Description req of
                   None \<Rightarrow> (case Upd_Title req of None \<Rightarrow> stored | Some x \<Rightarrow> stored\<lparr>Title := x\<rparr>)
                 | Some d \<Rightarrow> (case Upd_Title req of None \<Rightarrow> stored | Some x \<Rightarrow> stored\<lparr>Title := x\<rparr>)
                               \<lparr>Description := d\<rparr>)
                             | Some st \<Rightarrow> st)\<rparr>" for t
        using that by (simp add: apply_update_def split: option.splits)
      obtain r2 st' where u: "Update (repo s) ?task st = (r2, st')"
        by (cases "Update (repo s) ?task st")
      show ?thesis
      proof (cases r2)
        case (Some e)
        with g Inr ok u show ?thesis
          by (simp add: UpdateTask_def s_repo_GetByID_def s_repo_Update_def Let_def checked task)
      next
        case None
        show ?thesis
        proof (cases "cache s")
          case n: None
          with g Inr ok u None show ?thesis
            by (simp add: UpdateTask_def s_repo_GetByID_def s_repo_Update_def Let_def checked task)
        next
          case (Some c)
          let ?s2 = "s\<lparr>repo_state := st', calls := calls s @ [repo_GetByID tid, repo_Update ?task]\<rparr>"
          have c2: "cache ?s2 = Some c" using Some by simp
          from g Inr ok u None Some show ?thesis
            by (simp add: UpdateTask_def s_repo_GetByID_def s_repo_Update_def Let_def checked task
                  evictions [OF c2])
        qed
      qed
    qed
  qed
qed

section \<open>Requests that are refused\<close>

text \<open>
  Claim C2, as stated, fails for \<open>UpdateTask\<close>: the method reads the record before it
  looks at the request, so an update with a status outside the enumeration that names an
  identifier without a record fails with the repository's not-found error, which is not
  an invalid-input error.
\<close>

theorem C2_update_of_missing_record_counterexample:
  "Upd_Status example_bad_update = Some ''invalid_status''
   \<and> \<not> IsValidStatus ''invalid_status''
   \<and> fst (UpdateTask ''non-existent-id'' example_bad_update example_service) = Inl ErrTaskNotFound
   \<and> \<not> InvalidInput ErrTaskNotFound"
  by code_simp

text \<open>
  Claim C2, amended. \<open>CreateTask\<close> with an empty title, or with a status that is not
  empty (an empty one stands for none) and not in the enumeration, and \<open>ListTasks\<close>
  with a status filter outside the enumeration fail with an invalid-input error and leave
  the service as it was: no call to the repository or to the cache is made. \<open>UpdateTask\<close> with a status outside the
  enumeration first reads the record: it fails with the error of that read if the read
  fails, and with an invalid-input error otherwise; either way the read is the only call
  it makes, so nothing is written to the repository and the cache is not touched.
\<close>

theorem C2_invalid_requests_change_nothing:
  fixes s :: "'r TaskService"
  shows "(Req_Title req = []
          \<longrightarrow> CreateTask req s = (Inl (errors_New ''title is required''), s))
       \<and> (Req_Title req \<noteq> [] \<and> Req_Status req \<noteq> [] \<and> \<not> IsValidStatus (Req_Status req)
          \<longrightarrow> CreateTask req s = (Inl (errors_New ''invalid status''), s))
       \<and> (\<not> update_status_ok upd
          \<longrightarrow> (case UpdateTask tid upd s of (r, s') \<Rightarrow>
                 r = (case fst (GetByID (repo s) tid (repo_state s)) of
                        Inl e \<Rightarrow> Inl e
                      | Inr stored \<Rightarrow> Inl (errors_New ''invalid status''))
               \<and> new_calls s s' = [repo_GetByID tid]
               \<and> cache s' = cache s))
       \<and> (\<not> status_ok (filter_or_zero flt)
          \<longrightarrow> fst (ListTasks flt s) = Inl (errors_New ''invalid status filter'')
            \<and> snd (snd (ListTasks flt s)) = s)
       \<and> InvalidInput (errors_New ''title is required'')
       \<and> InvalidInput (errors_New ''invalid status'')
       \<and> InvalidInput (errors_New ''invalid status filter'')"
proof -
  have create1: "CreateTask req s = (Inl (errors_New ''title is required''), s)"
    if "Req_Title req = []"
    using that by (rule CreateTask_refused)
  have create2: "CreateTask req s = (Inl (errors_New ''invalid status''), s)"
    if "Req_Title req \<noteq> [] \<and> Req_Status req \<noteq> [] \<and> \<not> IsValidStatus (Req_Status req)"
    using that by (simp add: CreateTask_refused)
  have update: "case UpdateTask tid upd s of (r, s') \<Rightarrow>
          r = (case fst (GetByID (repo s) tid (repo_state s)) of
                 Inl e \<Rightarrow> Inl e
               | Inr stored \<Rightarrow> Inl (errors_New ''invalid status''))
        \<and> new_calls s s' = [repo_GetByID tid]
        \<and> cache s' = cache s"
    if bad: "\<not> update_status_ok upd"
  proof -
    obtain r st where g: "GetByID (repo s) tid (repo_state s) = (r, st)"
      by (cases "GetByID (repo s) tid (repo_state s)")
    show ?thesis
      using bad g by (cases r) (simp_all add: UpdateTask_cases new_calls_def)
  qed
  have list: "fst (ListTasks flt s) = Inl (errors_New ''invalid status filter'')
           \<and> snd (snd (ListTasks flt s)) = s"
    if "\<not> status_ok (filter_or_zero flt)"
    using that by (simp add: ListTasks_rejected)
  have kinds: "InvalidInput (errors_New ''title is required'')
       \<and> InvalidInput (errors_New ''invalid status'')
       \<and> InvalidInput (errors_New ''invalid status filter'')"
    by (simp add: InvalidInput_def)
  from create1 create2 update list kinds show ?thesis
    by blast
qed

theorem C2_invalid_requests_change_nothing_witness:
  "CreateTask \<lparr>Req_Title = [], Req_Description = [], Req_Status = TaskStatusPending,
               Req_Assignee = ''error@example.com''\<rparr> example_service
     = (Inl (errors_New ''title is required''), example_service)
   \<and> CreateTask \<lparr>Req_Title = ''Invalid Status Task'', Req_Description = [],
                 Req_Status = ''invalid_status'', Req_Assignee = ''error@example.com''\<rparr>
        example_service
     = (Inl (errors_New ''invalid status''), example_service)
   \<and> fst (UpdateTask (example_uuids 3) example_bad_update example_service)
     = Inl (errors_New ''invalid status'')
   \<and> new_calls example_service (snd (UpdateTask (example_uuids 3) example_bad_update example_service))
     = [repo_GetByID (example_uuids 3)]
   \<and> fst (ListTasks (Some \<lparr>F_Status = Some ''invalid_status'', F_Assignee = None,
                             F_Page = 1, F_PageSize = 10\<rparr>) example_service)
     = Inl (errors_New ''invalid status filter'')"
proof -
  let ?flt = "Some \<lparr>F_Status = Some ''invalid_status'', F_Assignee = None,
                     F_Page = 1, F_PageSize = 10\<rparr>"
  let ?c1 = "\<lparr>Req_Title = [], Req_Description = [], Req_Status = TaskStatusPending,
               Req_Assignee = ''error@example.com''\<rparr>"
  let ?c2 = "\<lparr>Req_Title = ''Invalid Status Task'', Req_Description = [],
               Req_Status = ''invalid_status'', Req_Assignee = ''error@example.com''\<rparr>"
  have a: "\<not> IsValidStatus ''invalid_status''"
    by code_simp
  have b: "\<not> update_status_ok example_bad_update"
    by code_simp
  have c: "\<not> status_ok (filter_or_zero ?flt)"
    by code_simp
  have d: "fst (GetByID (repo example_service) (example_uuids 3) (repo_state example_service))
             = Inr (example_task 3)"
    by code_simp
  obtain r s' where u: "UpdateTask (example_uuids 3) example_bad_update example_service = (r, s')"
    by (cases "UpdateTask (example_uuids 3) example_bad_update example_service")
  from C2_invalid_requests_change_nothing [of ?c1 example_service _ _ ?flt]
       C2_invalid_requests_change_nothing [of ?c2 example_service example_bad_update "example_uuids 3"]
       a b c d u
  show ?thesis
    by simp
qed

section \<open>The cache after a mutation\<close>








section \<open>Not found\<close>





















section \<open>Statuses handed to the repository\<close>

lemma created_task_Status:
  "Status (created_task req s)
     = (if Req_Status req = [] then TaskStatusPending else Req_Status req)"
  by (simp add: created_task_def NewTask_def)

lemma IsValidStatus_Pending: "IsValidStatus TaskStatusPending"
  by (simp add: IsValidStatus_def)

lemma created_task_valid:
  "create_request_ok req \<Longrightarrow> IsValidStatus (Status (created_task req s))"
  by (auto simp: created_task_Status create_request_ok_def IsValidStatus_Pending)

lemma apply_update_valid:
  assumes "update_status_ok upd"
    and "Upd_Status upd = None \<Longrightarrow> IsValidStatus (Status stored)"
  shows "IsValidStatus (Status (apply_update upd now stored))"
  using assms
  by (cases "Upd_Status upd") (simp_all add: apply_update_def update_status_ok_def)

lemma CreateTask_not_accepted:
  "\<not> create_request_ok req \<Longrightarrow> snd (CreateTask req s) = s"
  by (cases "Req_Title req = []") (auto simp: create_request_ok_def CreateTask_refused)

lemma CreateTask_new_calls:
  "create_request_ok req \<Longrightarrow>
     \<exists>cs. new_calls s (snd (CreateTask req s)) = repo_Create (created_task req s) # cs
          \<and> list_all persists_nothing cs"
  by (cases "Create (repo s) (created_task req s) (repo_state s)";
      cases "fst (Create (repo s) (created_task req s) (repo_state s))"; cases "cache s")
     (simp_all add: CreateTask_accepted Let_def new_calls_def persists_nothing_def)

lemma UpdateTask_new_calls:
  "(\<exists>stored. fst (GetByID (repo s) tid (repo_state s)) = Inr stored \<and> update_status_ok upd
       \<and> (\<exists>cs. new_calls s (snd (UpdateTask tid upd s))
                  = repo_GetByID tid # repo_Update (apply_update upd (clock s) stored) # cs
              \<and> list_all persists_nothing cs))
   \<or> new_calls s (snd (UpdateTask tid upd s)) = [repo_GetByID tid]"
proof -
  obtain r st where g: "GetByID (repo s) tid (repo_state s) = (r, st)"
    by (cases "GetByID (repo s) tid (repo_state s)")
  show ?thesis
  proof (cases r)
    case (Inl e)
    with g show ?thesis by (simp add: UpdateTask_cases new_calls_def)
  next
    case (Inr stored)
    show ?thesis
    proof (cases "update_status_ok upd")
      case False
      with g Inr show ?thesis by (simp add: UpdateTask_cases new_calls_def)
    next
      case True
      obtain r2 st' where u: "Update (repo s) (apply_update upd (clock s) stored) st = (r2, st')"
        by (cases "Update (repo s) (apply_update upd (clock s) stored) st")
      from g Inr True u show ?thesis
        by (cases r2; cases "cache s")
           (simp_all add: UpdateTask_cases Let_def new_calls_def persists_nothing_def)
    qed
  qed
qed

lemma GetTask_new_calls: "list_all persists_nothing (new_calls s (snd (GetTask tid s)))"
proof (cases "cache s")
  case None
  show ?thesis
    by (cases "GetByID (repo s) tid (repo_state s)"; cases "fst (GetByID (repo s) tid (repo_state s))")
       (simp_all add: GetTask_nocache [OF None] new_calls_def persists_nothing_def)
next
  case (Some c)
  obtain ct err c' where l: "RedisCache_GetTask tid c = ((ct, err), c')"
    by (cases "RedisCache_GetTask tid c") auto
  show ?thesis
  proof (cases "err \<noteq> None \<or> ct = None")
    case True
    show ?thesis
      by (cases "GetByID (repo s) tid (repo_state s)";
          cases "fst (GetByID (repo s) tid (repo_state s))")
         (simp_all add: GetTask_miss [OF Some l True] new_calls_def persists_nothing_def)
  next
    case False
    then obtain t where "ct = Some t" "err = None" by auto
    with l have "RedisCache_GetTask tid c = ((Some t, None), c')" by simp
    from GetTask_hit [OF Some this] show ?thesis
      by (simp add: new_calls_def persists_nothing_def)
  qed
qed

lemma ListTasks_new_calls:
  "list_all persists_nothing (new_calls s (snd (snd (ListTasks flt s))))"
proof (cases "status_ok (filter_or_zero flt)")
  case False
  then show ?thesis
    by (simp add: ListTasks_rejected new_calls_def)
next
  case ok: True
  let ?nf = "spec_normalized (filter_or_zero flt)"
  obtain r st where g: "GetAll (repo s) ?nf (repo_state s) = (r, st)"
    by (cases "GetAll (repo s) ?nf (repo_state s)")
  show ?thesis
  proof (cases "cache s")
    case None
    show ?thesis
      using g
      by (cases r) (auto simp: ListTasks_nocache [OF ok None] Let_def new_calls_def
                         persists_nothing_def)
  next
    case (Some c)
    obtain ts err c' where l: "RedisCache_GetTaskList (GenerateCacheKey (Some ?nf)) c = ((ts, err), c')"
      by (cases "RedisCache_GetTaskList (GenerateCacheKey (Some ?nf)) c") auto
    show ?thesis
    proof (cases "err \<noteq> None \<or> ts = None")
      case True
      show ?thesis
        using g
        by (cases r) (auto simp: ListTasks_miss [OF ok Some l True] Let_def new_calls_def
                           persists_nothing_def)
    next
      case False
      then obtain xs where "ts = Some xs" "err = None" by auto
      with l have "RedisCache_GetTaskList (GenerateCacheKey (Some ?nf)) c = ((Some xs, None), c')"
        by simp
      from ListTasks_hit [OF ok Some this] show ?thesis
        by (simp add: Let_def new_calls_def persists_nothing_def)
    qed
  qed
qed

lemma DeleteTask_new_calls: "list_all persists_nothing (new_calls s (snd (DeleteTask tid s)))"
  by (cases "Delete (repo s) tid (repo_state s)"; cases "fst (Delete (repo s) tid (repo_state s))";
      cases "cache s")
     (simp_all add: DeleteTask_cases new_calls_def persists_nothing_def)

lemma persists_nothing_valid: "list_all persists_nothing cs \<Longrightarrow> list_all persists_valid cs"
  by (induction cs) (simp_all add: persists_nothing_def persists_valid_def)

subsection \<open>The rows of the PostgreSQL repository\<close>

lemma Postgres_Create_rows:
  "rows (snd (PostgresTaskRepository_Create t db)) = rows db
   \<or> rows (snd (PostgresTaskRepository_Create t db)) = rows db @ [t]"
  by (cases "next_fault (sql_faults db)"; cases "fst (next_fault (sql_faults db))")
     (simp_all add: PostgresTaskRepository_Create_def db_Exec_insert_def Let_def)

lemma Postgres_GetByID_rows:
  "rows (snd (PostgresTaskRepository_GetByID tid db)) = rows db"
  by (cases "next_fault (sql_faults db)"; cases "fst (next_fault (sql_faults db))";
      cases "filter (\<lambda>r. ID r = tid) (rows db)")
     (simp_all add: PostgresTaskRepository_GetByID_def db_QueryRow_by_id_def Let_def)

lemma Postgres_GetByID_stored:
  assumes "fst (PostgresTaskRepository_GetByID tid db) = Inr stored"
  shows "stored \<in> set (rows db)"
proof -
  from assms obtain rs where "filter (\<lambda>r. ID r = tid) (rows db) = stored # rs"
    by (cases "next_fault (sql_faults db)"; cases "fst (next_fault (sql_faults db))";
        cases "filter (\<lambda>r. ID r = tid) (rows db)")
       (simp_all add: PostgresTaskRepository_GetByID_def db_QueryRow_by_id_def Let_def)
  then have "stored \<in> set (filter (\<lambda>r. ID r = tid) (rows db))"
    by simp
  then show ?thesis
    by simp
qed

lemma Postgres_Update_rows:
  "rows (snd (PostgresTaskRepository_Update t db)) = rows db
   \<or> rows (snd (PostgresTaskRepository_Update t db))
       = map (\<lambda>r. if ID r = ID t
                   then r\<lparr>Title := Title t, Description := Description t, Status := Status t,
                          Assignee := Assignee t, UpdatedAt := UpdatedAt t\<rparr>
                   else r) (rows db)"
  by (cases "next_fault (sql_faults db)"; cases "fst (next_fault (sql_faults db))")
     (simp_all add: PostgresTaskRepository_Update_def db_Exec_update_def Let_def)

lemma Postgres_Create_valid:
  assumes "valid_rows db" and "IsValidStatus (Status t)"
  shows "valid_rows (snd (PostgresTaskRepository_Create t db))"
  using Postgres_Create_rows [of t db] assms
  by (auto simp: valid_rows_def)

lemma Postgres_Update_valid:
  assumes "valid_rows db" and "IsValidStatus (Status t)"
  shows "valid_rows (snd (PostgresTaskRepository_Update t db))"
  using Postgres_Update_rows [of t db] assms
  by (auto simp: valid_rows_def list_all_iff)

lemma CreateTask_repo_state:
  "create_request_ok req \<Longrightarrow>
     repo_state (snd (CreateTask req s))
       = snd (Create (repo s) (created_task req s) (repo_state s))"
  by (cases "Create (repo s) (created_task req s) (repo_state s)";
      cases "fst (Create (repo s) (created_task req s) (repo_state s))"; cases "cache s")
     (simp_all add: CreateTask_accepted Let_def)

lemma UpdateTask_repo_state:
  "repo_state (snd (UpdateTask tid upd s)) = snd (GetByID (repo s) tid (repo_state s))
   \<or> (\<exists>stored. fst (GetByID (repo s) tid (repo_state s)) = Inr stored \<and> update_status_ok upd
        \<and> repo_state (snd (UpdateTask tid upd s))
            = snd (Update (repo s) (apply_update upd (clock s) stored)
                     (snd (GetByID (repo s) tid (repo_state s)))))"
proof -
  obtain r st where g: "GetByID (repo s) tid (repo_state s) = (r, st)"
    by (cases "GetByID (repo s) tid (repo_state s)")
  show ?thesis
  proof (cases r)
    case (Inl e)
    with g show ?thesis by (simp add: UpdateTask_cases)
  next
    case (Inr stored)
    show ?thesis
    proof (cases "update_status_ok upd")
      case False
      with g Inr show ?thesis by (simp add: UpdateTask_cases)
    next
      case True
      obtain r2 st' where u: "Update (repo s) (apply_update upd (clock s) stored) st = (r2, st')"
        by (cases "Update (repo s) (apply_update upd (clock s) stored) st")
      from g Inr True u show ?thesis
        by (cases r2; cases "cache s") (simp_all add: UpdateTask_cases Let_def)
    qed
  qed
qed

lemma CreateTask_Postgres_valid:
  fixes p :: "sql_DB TaskService"
  assumes "repo p = PostgresTaskRepository" and "valid_rows (repo_state p)"
  shows "valid_rows (repo_state (snd (CreateTask req p)))"
proof (cases "create_request_ok req")
  case False
  with assms(2) show ?thesis by (simp add: CreateTask_not_accepted)
next
  case True
  have "Create (repo p) = PostgresTaskRepository_Create"
    using assms(1) by (simp add: PostgresTaskRepository_def)
  with True assms(2) show ?thesis
    by (simp add: CreateTask_repo_state Postgres_Create_valid created_task_valid)
qed

lemma UpdateTask_Postgres_valid:
  fixes p :: "sql_DB TaskService"
  assumes "repo p = PostgresTaskRepository" and "valid_rows (repo_state p)"
  shows "valid_rows (repo_state (snd (UpdateTask tid upd p)))"
proof -
  let ?db = "repo_state p"
  have r: "GetByID (repo p) = PostgresTaskRepository_GetByID"
    "Update (repo p) = PostgresTaskRepository_Update"
    using assms(1) by (simp_all add: PostgresTaskRepository_def)
  have read: "valid_rows (snd (PostgresTaskRepository_GetByID tid ?db))"
    using assms(2) by (simp add: valid_rows_def Postgres_GetByID_rows)
  from UpdateTask_repo_state [of tid upd p] show ?thesis
  proof
    assume "repo_state (snd (UpdateTask tid upd p)) = snd (GetByID (repo p) tid ?db)"
    with read show ?thesis by (simp add: r)
  next
    assume "\<exists>stored. fst (GetByID (repo p) tid ?db) = Inr stored \<and> update_status_ok upd
              \<and> repo_state (snd (UpdateTask tid upd p))
                  = snd (Update (repo p) (apply_update upd (clock p) stored)
                           (snd (GetByID (repo p) tid ?db)))"
    then obtain stored where s: "fst (PostgresTaskRepository_GetByID tid ?db) = Inr stored"
      and ok: "update_status_ok upd"
      and e: "repo_state (snd (UpdateTask tid upd p))
                = snd (PostgresTaskRepository_Update (apply_update upd (clock p) stored)
                         (snd (PostgresTaskRepository_GetByID tid ?db)))"
      by (auto simp: r)
    from Postgres_GetByID_stored [OF s] assms(2) have "IsValidStatus (Status stored)"
      by (simp add: valid_rows_def list_all_iff)
    with ok have "IsValidStatus (Status (apply_update upd (clock p) stored))"
      by (intro apply_update_valid) simp_all
    with read e show ?thesis
      by (simp add: Postgres_Update_valid)
  qed
qed

subsection \<open>The claim\<close>

text \<open>
  Claim C8. Every record that the service hands to the repository's \<open>Create\<close> or
  \<open>Update\<close> has a status in the enumeration. \<open>CreateTask\<close> hands over nothing when
  it refuses the request, and otherwise the record it built, whose status is
  \<open>pending\<close> when the request left it empty and the valid status of the request
  otherwise. \<open>UpdateTask\<close> hands over nothing when the supplied status is invalid;
  otherwise the status it hands over is the supplied one or, when none is supplied, the
  one the repository returned for the stored record, so it is valid as long as the stored
  one is. \<open>GetTask\<close>, \<open>ListTasks\<close> and \<open>DeleteTask\<close> hand over no record. On the
  PostgreSQL repository this keeps every row valid: if all rows have a valid status
  before \<open>CreateTask\<close> or \<open>UpdateTask\<close>, they all have one after.
\<close>

theorem C8_only_valid_statuses_persisted:
  fixes s :: "'r TaskService" and p :: "sql_DB TaskService"
  shows "list_all persists_valid (new_calls s (snd (CreateTask req s)))
       \<and> (create_request_ok req
          \<longrightarrow> (\<exists>cs. new_calls s (snd (CreateTask req s)) = repo_Create (created_task req s) # cs
                    \<and> list_all persists_nothing cs)
            \<and> Status (created_task req s)
                = (if Req_Status req = [] then TaskStatusPending else Req_Status req))
       \<and> (\<not> create_request_ok req \<longrightarrow> new_calls s (snd (CreateTask req s)) = [])
       \<and> ((\<forall>stored. fst (GetByID (repo s) tid (repo_state s)) = Inr stored
                     \<longrightarrow> IsValidStatus (Status stored))
          \<longrightarrow> list_all persists_valid (new_calls s (snd (UpdateTask tid upd s))))
       \<and> (Upd_Status upd \<noteq> None
          \<longrightarrow> list_all persists_valid (new_calls s (snd (UpdateTask tid upd s))))
       \<and> (\<not> update_status_ok upd
          \<longrightarrow> list_all persists_nothing (new_calls s (snd (UpdateTask tid upd s))))
       \<and> list_all persists_nothing (new_calls s (snd (GetTask tid s)))
       \<and> list_all persists_nothing (new_calls s (snd (snd (ListTasks flt s))))
       \<and> list_all persists_nothing (new_calls s (snd (DeleteTask tid s)))
       \<and> (repo p = PostgresTaskRepository \<and> valid_rows (repo_state p)
          \<longrightarrow> valid_rows (repo_state (snd (CreateTask req p)))
            \<and> valid_rows (repo_state (snd (UpdateTask tid upd p))))"
proof -
  have create_refused: "new_calls s (snd (CreateTask req s)) = []" if "\<not> create_request_ok req"
    using that by (simp add: CreateTask_not_accepted new_calls_def)
  have create_accepted:
    "(\<exists>cs. new_calls s (snd (CreateTask req s)) = repo_Create (created_task req s) # cs
           \<and> list_all persists_nothing cs)
     \<and> Status (created_task req s)
         = (if Req_Status req = [] then TaskStatusPending else Req_Status req)"
    if "create_request_ok req"
    using CreateTask_new_calls [OF that] by (simp add: created_task_Status)
  have create: "list_all persists_valid (new_calls s (snd (CreateTask req s)))"
  proof (cases "create_request_ok req")
    case False
    then show ?thesis by (simp add: create_refused)
  next
    case True
    from CreateTask_new_calls [OF True] obtain cs where
      "new_calls s (snd (CreateTask req s)) = repo_Create (created_task req s) # cs"
      "list_all persists_nothing cs"
      by blast
    moreover have "persists_valid (repo_Create (created_task req s))"
      using created_task_valid [OF True] by (simp add: persists_valid_def)
    ultimately show ?thesis
      by (simp add: persists_nothing_valid)
  qed
  have update: "list_all persists_valid (new_calls s (snd (UpdateTask tid upd s)))"
    if h: "\<And>stored. fst (GetByID (repo s) tid (repo_state s)) = Inr stored
             \<Longrightarrow> Upd_Status upd = None \<Longrightarrow> IsValidStatus (Status stored)"
  proof -
    from UpdateTask_new_calls [of s tid upd] show ?thesis
    proof
      assume "new_calls s (snd (UpdateTask tid upd s)) = [repo_GetByID tid]"
      moreover have "persists_valid (repo_GetByID tid)"
        by (simp add: persists_valid_def)
      ultimately show ?thesis by simp
    next
      assume "\<exists>stored. fst (GetByID (repo s) tid (repo_state s)) = Inr stored
                \<and> update_status_ok upd
                \<and> (\<exists>cs. new_calls s (snd (UpdateTask tid upd s))
                           = repo_GetByID tid # repo_Update (apply_update upd (clock s) stored) # cs
                       \<and> list_all persists_nothing cs)"
      then obtain stored cs where g: "fst (GetByID (repo s) tid (repo_state s)) = Inr stored"
        and ok: "update_status_ok upd"
        and n: "new_calls s (snd (UpdateTask tid upd s))
                  = repo_GetByID tid # repo_Update (apply_update upd (clock s) stored) # cs"
        and cs: "list_all persists_nothing cs"
        by blast
      have "IsValidStatus (Status (apply_update upd (clock s) stored))"
        using ok h [OF g] by (rule apply_update_valid)
      then have "persists_valid (repo_Update (apply_update upd (clock s) stored))"
        and "persists_valid (repo_GetByID tid)"
        by (simp_all add: persists_valid_def)
      with n cs show ?thesis
        by (simp add: persists_nothing_valid)
    qed
  qed
  have update_refused: "list_all persists_nothing (new_calls s (snd (UpdateTask tid upd s)))"
    if "\<not> update_status_ok upd"
    using UpdateTask_new_calls [of s tid upd] that by (auto simp: persists_nothing_def)
  have postgres: "valid_rows (repo_state (snd (CreateTask req p)))
                \<and> valid_rows (repo_state (snd (UpdateTask tid upd p)))"
    if "repo p = PostgresTaskRepository \<and> valid_rows (repo_state p)"
    using that by (simp add: CreateTask_Postgres_valid UpdateTask_Postgres_valid)
  from create create_accepted create_refused update update_refused postgres
    GetTask_new_calls [of s tid] ListTasks_new_calls [of s flt] DeleteTask_new_calls [of s tid]
  show ?thesis
    by (intro conjI impI) auto
qed

theorem C8_only_valid_statuses_persisted_witness:
  "map (map_option Status \<circ> persisted)
       (new_calls example_service (snd (CreateTask example_create example_service)))
     = [Some ''pending'', None]
   \<and> map (map_option Status \<circ> persisted)
       (new_calls example_service
          (snd (UpdateTask (example_uuids 3) example_update example_service)))
     = [None, Some ''completed'', None, None]
   \<and> list_all persists_valid
       (new_calls example_service
          (snd (UpdateTask (example_uuids 3) example_update example_service)))
   \<and> new_calls example_service
       (snd (UpdateTask (example_uuids 3) example_bad_update example_service))
     = [repo_GetByID (example_uuids 3)]
   \<and> length (rows (repo_state (snd (CreateTask example_create example_service)))) = 16
   \<and> valid_rows (repo_state (snd (CreateTask example_create example_service)))
   \<and> valid_rows (repo_state (snd (UpdateTask (example_uuids 3) example_update example_service)))"
proof -
  have a: "map (map_option Status \<circ> persisted)
       (new_calls example_service (snd (CreateTask example_create example_service)))
     = [Some ''pending'', None]"
    by code_simp
  have b: "map (map_option Status \<circ> persisted)
       (new_calls example_service
          (snd (UpdateTask (example_uuids 3) example_update example_service)))
     = [None, Some ''completed'', None, None]"
    by code_simp
  have c: "new_calls example_service
       (snd (UpdateTask (example_uuids 3) example_bad_update example_service))
     = [repo_GetByID (example_uuids 3)]"
    by code_simp
  have d: "length (rows (repo_state (snd (CreateTask example_create example_service)))) = 16"
    by code_simp
  have h: "Upd_Status example_update \<noteq> None \<and> valid_rows (repo_state example_service)"
    by code_simp
  have r: "repo example_service = PostgresTaskRepository"
    by (simp add: example_service_def)
  from C8_only_valid_statuses_persisted
         [where s = example_service and p = example_service and req = example_create
            and tid = "example_uuids 3" and upd = example_update and flt = None]
       a b c d h r
  show ?thesis
    by simp
qed

end
